theory Spec2Isabelle
  imports Main
begin

section \<open>Many-Logics Modal Logics: lattice engine, models, parser and evaluator\<close>

text \<open>
  A shallow embedding of \<^verbatim>\<open>src/math_objects/lattice.py\<close>, \<^verbatim>\<open>src/math_objects/world.py\<close>,
  \<^verbatim>\<open>src/math_objects/model.py\<close> and \<^verbatim>\<open>src/parser/formula_parser.py\<close>.

  Conventions of the embedding:
  \<^item> a Python \<^verbatim>\<open>set\<close> that the code iterates over is the list of its members in
    iteration order (without repetitions); a set comprehension is \<open>filter\<close> over that
    list; a set that is only tested for membership (\<^verbatim>\<open>relations\<close>) is a HOL set;
  \<^item> a Python \<^verbatim>\<open>dict\<close> is an association list in insertion order, looked up with
    \<open>map_of\<close>;
  \<^item> an optional argument (\<^verbatim>\<open>Optional[...] = None\<close>) is an \<open>option\<close>;
  \<^item> an attribute that \<^verbatim>\<open>__init__\<close> assigns late (\<^verbatim>\<open>bottom\<close>, \<^verbatim>\<open>top\<close>) is an
    \<open>option\<close> field, \<open>None\<close> while it is unassigned; reading it then raises
    \<^verbatim>\<open>AttributeError\<close>;
  \<^item> every \<^verbatim>\<open>raise\<close> is a value \<open>Inl e\<close> of the result; \<open>e\<close> names the Python
    exception class and carries the message template of the source (the f-string,
    not interpolated); an \<^verbatim>\<open>AttributeError\<close> carries the name of the attribute and a
    \<^verbatim>\<open>KeyError\<close> the name of the key;
  \<^item> \<^verbatim>\<open>isinstance\<close> checks are discharged by the types.
\<close>

subsection \<open>Errors\<close>

datatype error =
    ValueError string
  | TypeError string
  | AttributeError string
  | KeyError string
  | Exception string

subsection \<open>Lattice\<close>

record lattice =
  name :: string
  elements :: "string list"
  relations :: "(string \<times> string) set"
  negation_map :: "(string \<times> string) list"
  implication_map :: "((string \<times> string) \<times> string) list"
  bottom_attr :: "string option"
  top_attr :: "string option"

definition is_less_than_or_equal :: "'a lattice_scheme \<Rightarrow> string \<Rightarrow> string \<Rightarrow> bool" where
  "is_less_than_or_equal self a b = ((a, b) \<in> relations self)"

text \<open>\<^verbatim>\<open>Lattice.join\<close>: the first common upper bound, in scan order, that is below every
  common upper bound.\<close>

definition join :: "'a lattice_scheme \<Rightarrow> string \<Rightarrow> string \<Rightarrow> error + string" where
  "join self a b =
     (if a \<notin> set (elements self) \<or> b \<notin> set (elements self)
      then Inl (ValueError ''Elements '{a}' or '{b}' not in the lattice.'')
      else
        let upper_bounds =
              filter (\<lambda>x. is_less_than_or_equal self a x \<and> is_less_than_or_equal self b x)
                (elements self)
        in if upper_bounds = []
           then Inl (ValueError ''No common upper bounds found for '{a}' and '{b}'.'')
           else
             (case find (\<lambda>x. list_all (\<lambda>y. is_less_than_or_equal self x y) upper_bounds)
                     upper_bounds of
                Some x \<Rightarrow> Inr x
              | None \<Rightarrow> Inl (ValueError ''No unique Join found for '{a}' and '{b}'.'')))"

text \<open>\<^verbatim>\<open>Lattice.meet\<close>: the first common lower bound, in scan order, that is above every
  common lower bound.\<close>

definition meet :: "'a lattice_scheme \<Rightarrow> string \<Rightarrow> string \<Rightarrow> error + string" where
  "meet self a b =
     (if a \<notin> set (elements self) \<or> b \<notin> set (elements self)
      then Inl (ValueError ''Elements '{a}' or '{b}' not in the lattice.'')
      else
        let lower_bounds =
              filter (\<lambda>x. is_less_than_or_equal self x a \<and> is_less_than_or_equal self x b)
                (elements self)
        in if lower_bounds = []
           then Inl (ValueError ''No common lower bounds found for '{a}' and '{b}'.'')
           else
             (case find (\<lambda>x. list_all (\<lambda>y. is_less_than_or_equal self y x) lower_bounds)
                     lower_bounds of
                Some x \<Rightarrow> Inr x
              | None \<Rightarrow> Inl (ValueError ''No unique Meet found for '{a}' and '{b}'.'')))"

text \<open>The loops of \<^verbatim>\<open>meet_set\<close> and \<^verbatim>\<open>join_set\<close>: the accumulator starts at the first
  member and is combined with every member, the first one included.\<close>

fun meet_loop :: "'a lattice_scheme \<Rightarrow> string \<Rightarrow> string list \<Rightarrow> error + string" where
  "meet_loop self lower [] = Inr lower"
| "meet_loop self lower (element # rest) =
     (case meet self lower element of
        Inl e \<Rightarrow> Inl e
      | Inr lower' \<Rightarrow> meet_loop self lower' rest)"

fun join_loop :: "'a lattice_scheme \<Rightarrow> string \<Rightarrow> string list \<Rightarrow> error + string" where
  "join_loop self greatest [] = Inr greatest"
| "join_loop self greatest (element # rest) =
     (case join self greatest element of
        Inl e \<Rightarrow> Inl e
      | Inr greatest' \<Rightarrow> join_loop self greatest' rest)"

text \<open>Reading \<^verbatim>\<open>self.top\<close> and \<^verbatim>\<open>self.bottom\<close>.\<close>

definition get_top :: "'a lattice_scheme \<Rightarrow> error + string" where
  "get_top self =
     (case top_attr self of
        None \<Rightarrow> Inl (AttributeError ''top'')
      | Some t \<Rightarrow> Inr t)"

definition get_bottom :: "'a lattice_scheme \<Rightarrow> error + string" where
  "get_bottom self =
     (case bottom_attr self of
        None \<Rightarrow> Inl (AttributeError ''bottom'')
      | Some b \<Rightarrow> Inr b)"

definition meet_set :: "'a lattice_scheme \<Rightarrow> string list option \<Rightarrow> error + string" where
  "meet_set self subset_arg =
     (let subset_list = (case subset_arg of None \<Rightarrow> [] | Some s \<Rightarrow> s)
      in case subset_list of
           [] \<Rightarrow> get_top self
         | first # _ \<Rightarrow> meet_loop self first subset_list)"

definition join_set :: "'a lattice_scheme \<Rightarrow> string list option \<Rightarrow> error + string" where
  "join_set self subset_arg =
     (let subset_list = (case subset_arg of None \<Rightarrow> [] | Some s \<Rightarrow> s)
      in case subset_list of
           [] \<Rightarrow> get_bottom self
         | first # _ \<Rightarrow> join_loop self first subset_list)"

text \<open>\<^verbatim>\<open>Lattice._check_is_lattice\<close>: the nested loop calls \<^verbatim>\<open>meet\<close> and \<^verbatim>\<open>join\<close> on
  every ordered pair and drops the results; only a \<^verbatim>\<open>ValueError\<close> is caught.\<close>

fun check_pairs :: "'a lattice_scheme \<Rightarrow> (string \<times> string) list \<Rightarrow> error + unit" where
  "check_pairs self [] = Inr ()"
| "check_pairs self ((x, y) # rest) =
     (case meet self x y of
        Inl e \<Rightarrow> Inl e
      | Inr _ \<Rightarrow>
          (case join self x y of
             Inl e \<Rightarrow> Inl e
           | Inr _ \<Rightarrow> check_pairs self rest))"

definition check_is_lattice :: "'a lattice_scheme \<Rightarrow> error + bool" where
  "check_is_lattice self =
     (case check_pairs self (List.product (elements self) (elements self)) of
        Inr _ \<Rightarrow> Inr True
      | Inl (ValueError _) \<Rightarrow> Inr False
      | Inl e \<Rightarrow> Inl e)"

text \<open>\<^verbatim>\<open>Lattice.__init__\<close>.\<close>

definition Lattice_init ::
  "string \<Rightarrow> string list \<Rightarrow> (string \<times> string) set \<Rightarrow> (string \<times> string) list option \<Rightarrow>
   ((string \<times> string) \<times> string) list option \<Rightarrow> error + lattice" where
  "Lattice_init nm els rels neg imp =
     (let self = \<lparr> name = nm, elements = remdups els, relations = rels,
                   negation_map = (case neg of None \<Rightarrow> [] | Some m \<Rightarrow> m),
                   implication_map = (case imp of None \<Rightarrow> [] | Some m \<Rightarrow> m),
                   bottom_attr = None, top_attr = None \<rparr>
      in (case check_is_lattice self of
           Inl e \<Rightarrow> Inl e
         | Inr ok \<Rightarrow>
             if \<not> ok then Inl (ValueError ''The object '{name}' is not a valid lattice.'')
             else
               (case meet_set self (Some (elements self)) of
                  Inl e \<Rightarrow> Inl e
                | Inr b \<Rightarrow>
                    (let self = self\<lparr> bottom_attr := Some b \<rparr>
                     in (case join_set self (Some (elements self)) of
                           Inl e \<Rightarrow> Inl e
                         | Inr t \<Rightarrow> Inr (self\<lparr> top_attr := Some t \<rparr>))))))"

subsection \<open>FilteredLattice and ManyLattice\<close>

text \<open>The subclasses extend the record, as they extend the class; every function on
  \<open>'a lattice_scheme\<close> applies to them.\<close>

record filtered_lattice = lattice +
  name_filtered_lattice :: string
  filter_set :: "string list"

record many_lattice = filtered_lattice +
  comp_sub_lat :: "lattice list"
  name_many_lattice :: string

definition check_filter :: "'a filtered_lattice_scheme \<Rightarrow> bool" where
  "check_filter self = list_all (\<lambda>x. x \<in> set (elements self)) (filter_set self)"

text \<open>\<^verbatim>\<open>FilteredLattice.__init__\<close>: the base initialiser runs first (with \<^verbatim>\<open>name_lattice\<close>
  as the name), then the filter is stored and checked.\<close>

definition FilteredLattice_init ::
  "string \<Rightarrow> string \<Rightarrow> string list \<Rightarrow> (string \<times> string) set \<Rightarrow>
   (string \<times> string) list option \<Rightarrow> ((string \<times> string) \<times> string) list option \<Rightarrow>
   string list option \<Rightarrow> error + filtered_lattice" where
  "FilteredLattice_init nm_filtered_lattice nm_lattice els rels neg imp flt =
     (case Lattice_init nm_lattice els rels neg imp of
        Inl e \<Rightarrow> Inl e
      | Inr base \<Rightarrow>
          (let self = \<lparr> name = name base, elements = elements base,
                         relations = relations base, negation_map = negation_map base,
                         implication_map = implication_map base,
                         bottom_attr = bottom_attr base, top_attr = top_attr base,
                         name_filtered_lattice = nm_filtered_lattice,
                         filter_set = (case flt of None \<Rightarrow> [] | Some f \<Rightarrow> f) \<rparr>
           in if \<not> check_filter self
              then Inl (ValueError ''The Filter must be a subset of the Lattice elements.'')
              else Inr self))"

text \<open>\<^verbatim>\<open>ManyLattice.__init__\<close>: after the base initialiser, the list of sublattices is
  stored as it is given.\<close>

definition ManyLattice_init ::
  "string \<Rightarrow> string \<Rightarrow> string \<Rightarrow> string list \<Rightarrow> (string \<times> string) set \<Rightarrow> lattice list \<Rightarrow>
   (string \<times> string) list option \<Rightarrow> ((string \<times> string) \<times> string) list option \<Rightarrow>
   string list option \<Rightarrow> error + many_lattice" where
  "ManyLattice_init nm_many_lattice nm_filtered_lattice nm_lattice els rels csl neg imp flt =
     (case FilteredLattice_init nm_filtered_lattice nm_lattice els rels neg imp flt of
        Inl e \<Rightarrow> Inl e
      | Inr base \<Rightarrow>
          Inr \<lparr> name = name base, elements = elements base,
                relations = relations base, negation_map = negation_map base,
                implication_map = implication_map base,
                bottom_attr = bottom_attr base, top_attr = top_attr base,
                name_filtered_lattice = name_filtered_lattice base,
                filter_set = filter_set base,
                comp_sub_lat = csl, name_many_lattice = nm_many_lattice \<rparr>)"

definition get_comp_sub_lattice :: "many_lattice \<Rightarrow> string \<Rightarrow> lattice option" where
  "get_comp_sub_lattice self nm = find (\<lambda>l. name l = nm) (comp_sub_lat self)"

text \<open>\<^verbatim>\<open>ManyLattice.add_comp_sub_lat\<close>: the only test is on the name.\<close>

definition add_comp_sub_lat :: "many_lattice \<Rightarrow> lattice \<Rightarrow> error + many_lattice" where
  "add_comp_sub_lat self l =
     (if get_comp_sub_lattice self (name l) \<noteq> None
      then Inl (ValueError ''Lattice '{lattice.name}' already exists.'')
      else Inr (self\<lparr> comp_sub_lat := comp_sub_lat self @ [l] \<rparr>))"

text \<open>\<^verbatim>\<open>ManyLattice.down_interpretation\<close> and \<^verbatim>\<open>up_interpretation\<close>: the order used to
  collect the bounds is the base order (\<^verbatim>\<open>self.is_less_than_or_equal\<close>); the join or meet
  is the sublattice's.\<close>

definition down_interpretation :: "many_lattice \<Rightarrow> lattice \<Rightarrow> string \<Rightarrow> error + string" where
  "down_interpretation self l element_a =
     (if name l \<notin> set (map name (comp_sub_lat self))
      then Inl (ValueError ''Lattice must be a registered complete sublattice.'')
      else if element_a \<in> set (elements l) then Inr element_a
      else
        let lower_set = filter (\<lambda>x. is_less_than_or_equal self x element_a) (elements l)
        in if lower_set = [] then get_bottom l
           else join_set l (Some lower_set))"

definition up_interpretation :: "many_lattice \<Rightarrow> lattice \<Rightarrow> string \<Rightarrow> error + string" where
  "up_interpretation self l element_a =
     (if name l \<notin> set (map name (comp_sub_lat self))
      then Inl (ValueError ''Lattice must be a registered complete sublattice.'')
      else if element_a \<in> set (elements l) then Inr element_a
      else
        let upper_set = filter (\<lambda>x. is_less_than_or_equal self element_a x) (elements l)
        in if upper_set = [] then get_top l
           else meet_set l (Some upper_set))"

subsection \<open>World\<close>

text \<open>\<open>wid\<close> is the identity of the object: the class defines neither \<^verbatim>\<open>__eq__\<close> nor
  \<^verbatim>\<open>__hash__\<close>, so sets and dictionaries of worlds compare by identity.\<close>

record world =
  wid :: nat
  name_long :: string
  name_short :: string
  lattice :: lattice
  assignments :: "(string \<times> string) list"

definition World_init ::
  "nat \<Rightarrow> string \<Rightarrow> string \<Rightarrow> lattice \<Rightarrow> (string \<times> string) list option \<Rightarrow> world" where
  "World_init ident nm_long nm_short l asg =
     \<lparr> wid = ident, name_long = nm_long, name_short = nm_short, lattice = l,
       assignments = (case asg of None \<Rightarrow> [] | Some a \<Rightarrow> a) \<rparr>"

subsection \<open>Model\<close>

record model =
  name_model :: string
  many_lattice :: many_lattice
  worlds :: "world list"
  initial_state :: world
  props :: "string list"
  actions :: "string list"
  accessibility_relation :: "(world \<times> world list) list"

text \<open>\<^verbatim>\<open>Model.__init__\<close>: the worlds are stored as given, and every world without an
  entry in the accessibility dictionary gets an empty one. No test is made on the
  worlds' lattices.\<close>

definition Model_init ::
  "string \<Rightarrow> many_lattice \<Rightarrow> world list \<Rightarrow> world \<Rightarrow> (world \<times> world list) list option \<Rightarrow>
   string list option \<Rightarrow> string list option \<Rightarrow> model" where
  "Model_init nm ml ws init acc prs acts =
     \<lparr> name_model = nm, many_lattice = ml, worlds = ws, initial_state = init,
       props = (case prs of None \<Rightarrow> [] | Some p \<Rightarrow> p),
       actions = (case acts of None \<Rightarrow> [] | Some a \<Rightarrow> a),
       accessibility_relation =
         fold (\<lambda>w rel. if map_of rel w = None then rel @ [(w, [])] else rel) ws
           (case acc of None \<Rightarrow> [] | Some r \<Rightarrow> r) \<rparr>"

definition get_world :: "model \<Rightarrow> string \<Rightarrow> world option" where
  "get_world self nm = find (\<lambda>w. name_short w = nm) (worlds self)"

text \<open>The mutators return the exception raised, if any, together with the state the
  object is left in.\<close>

definition add_world :: "model \<Rightarrow> world \<Rightarrow> error option \<times> model" where
  "add_world self w =
     (if get_world self (name_short w) \<noteq> None
      then (Some (ValueError ''A world with the name '{world.name_short}' already exists.''), self)
      else if name (lattice w) \<notin> set (map name (comp_sub_lat (many_lattice self)))
      then (Some (Exception
              ''The world's lattice must be a complete sublattice of the base lattice.''), self)
      else
        (None,
         self\<lparr> worlds := (if w \<in> set (worlds self) then worlds self else worlds self @ [w]),
               accessibility_relation :=
                 (if map_of (accessibility_relation self) w = None
                  then accessibility_relation self @ [(w, [])]
                  else accessibility_relation self) \<rparr>))"

text \<open>\<^verbatim>\<open>Model.delete_world\<close>: both tests come before any update; the dictionary entry is
  deleted before \<^verbatim>\<open>self.worlds.remove\<close>, which raises \<^verbatim>\<open>KeyError\<close> for a world that is
  not a member.\<close>

definition delete_world :: "model \<Rightarrow> world \<Rightarrow> error option \<times> model" where
  "delete_world self w =
     (if (case map_of (accessibility_relation self) w of None \<Rightarrow> False | Some ts \<Rightarrow> ts \<noteq> [])
      then (Some (ValueError
              ''World '{world.name_short}' has outgoing relations. Delete them first.''), self)
      else if list_ex (\<lambda>(other_world, targets). w \<in> set targets) (accessibility_relation self)
      then (Some (ValueError
              ''World '{other_world.name_short}' points to '{world.name_short}'. Remove relation first.''),
            self)
      else
        let self = self\<lparr> accessibility_relation :=
                         filter (\<lambda>(k, targets). k \<noteq> w) (accessibility_relation self) \<rparr>
        in if w \<notin> set (worlds self) then (Some (KeyError ''world''), self)
           else (None, self\<lparr> worlds := removeAll w (worlds self) \<rparr>))"

subsection \<open>Lexer\<close>

text \<open>The lexer's state is the text from \<^verbatim>\<open>pos\<close> on; \<^verbatim>\<open>current_char\<close> is its head
  (\<^verbatim>\<open>None\<close> when it is empty). Formula texts are ASCII: \<open>isspace\<close> and \<open>isalnum\<close> are
  \<^verbatim>\<open>str.isspace\<close> and \<^verbatim>\<open>str.isalnum\<close> on the ASCII range.\<close>

datatype token =
    ATOM string
  | NOT
  | BOX
  | DIAMOND
  | IFF
  | IMPLIES
  | AND
  | OR
  | LPAREN
  | RPAREN
  | EOF

text \<open>The first component of the source's token pair.\<close>

fun token_type :: "token \<Rightarrow> string" where
  "token_type (ATOM v) = ''ATOM''"
| "token_type NOT = ''NOT''"
| "token_type BOX = ''BOX''"
| "token_type DIAMOND = ''DIAMOND''"
| "token_type IFF = ''IFF''"
| "token_type IMPLIES = ''IMPLIES''"
| "token_type AND = ''AND''"
| "token_type OR = ''OR''"
| "token_type LPAREN = ''LPAREN''"
| "token_type RPAREN = ''RPAREN''"
| "token_type EOF = ''EOF''"

definition isspace :: "char \<Rightarrow> bool" where
  "isspace c = (let n = (of_char c :: nat) in (9 \<le> n \<and> n \<le> 13) \<or> (28 \<le> n \<and> n \<le> 32))"

definition isalnum :: "char \<Rightarrow> bool" where
  "isalnum c =
     (let n = (of_char c :: nat)
      in (48 \<le> n \<and> n \<le> 57) \<or> (65 \<le> n \<and> n \<le> 90) \<or> (97 \<le> n \<and> n \<le> 122))"

definition skip_whitespace :: "string \<Rightarrow> string" where
  "skip_whitespace text = dropWhile isspace text"

definition get_atom :: "string \<Rightarrow> token \<times> string" where
  "get_atom text = (ATOM (takeWhile isalnum text), dropWhile isalnum text)"

function get_next_token :: "string \<Rightarrow> error + token \<times> string" where
  "get_next_token [] = Inr (EOF, [])"
| "get_next_token (c # cs) =
     (if isspace c then get_next_token (skip_whitespace (c # cs))
      else if isalnum c then Inr (get_atom (c # cs))
      else if c = CHR ''~'' then Inr (NOT, cs)
      else if c = CHR ''['' then
        (case cs of
           [] \<Rightarrow> Inl (ValueError (''Expected ']' after '['' @ [CHR 0x27]))
         | d # ds \<Rightarrow>
             if d = CHR '']'' then Inr (BOX, ds)
             else Inl (ValueError (''Expected ']' after '['' @ [CHR 0x27])))
      else if c = CHR ''<'' then
        (case cs of
           [] \<Rightarrow> Inl (ValueError (''Expected '>' or '-' after '<'' @ [CHR 0x27]))
         | d # ds \<Rightarrow>
             if d = CHR ''>'' then Inr (DIAMOND, ds)
             else if d = CHR ''-'' then
               (case ds of
                  [] \<Rightarrow> Inl (ValueError (''Expected '>' after '<-'' @ [CHR 0x27]))
                | e # es \<Rightarrow>
                    if e = CHR ''>'' then Inr (IFF, es)
                    else Inl (ValueError (''Expected '>' after '<-'' @ [CHR 0x27])))
             else Inl (ValueError (''Expected '>' or '-' after '<'' @ [CHR 0x27])))
      else if c = CHR ''-'' then
        (case cs of
           [] \<Rightarrow> Inl (ValueError (''Expected '>' after '-'' @ [CHR 0x27]))
         | d # ds \<Rightarrow>
             if d = CHR ''>'' then Inr (IMPLIES, ds)
             else Inl (ValueError (''Expected '>' after '-'' @ [CHR 0x27])))
      else if c = CHR ''&'' then Inr (AND, cs)
      else if c = CHR ''|'' then Inr (OR, cs)
      else if c = CHR ''('' then Inr (LPAREN, cs)
      else if c = CHR '')'' then Inr (RPAREN, cs)
      else Inl (ValueError ''Unknown character: {self.current_char}''))"
  by pat_completeness auto
termination
proof (relation "measure length")
  show "wf (measure length)" by simp
next
  fix c :: char and cs :: string
  assume "isspace c"
  then have "skip_whitespace (c # cs) = dropWhile isspace cs"
    by (simp add: skip_whitespace_def)
  moreover have "length (dropWhile isspace cs) \<le> length cs"
    by (rule length_dropWhile_le)
  ultimately show "(skip_whitespace (c # cs), c # cs) \<in> measure length"
    by simp
qed

subsection \<open>Abstract syntax\<close>

datatype ast =
    Atom string
  | Not_node ast
  | And ast ast
  | Or ast ast
  | Implies ast ast
  | Iff ast ast
  | Box ast
  | Diamond ast

subsection \<open>Parser\<close>

text \<open>The parser object: its lexer and the token it looks at.\<close>

record parser =
  lexer :: string
  current_token :: token

definition FormulaParser_init :: "string \<Rightarrow> error + parser" where
  "FormulaParser_init text =
     (case get_next_token text of
        Inl e \<Rightarrow> Inl e
      | Inr (tok, rest) \<Rightarrow> Inr \<lparr> lexer = rest, current_token = tok \<rparr>)"

definition eat :: "parser \<Rightarrow> string \<Rightarrow> error + parser" where
  "eat self expected =
     (if token_type (current_token self) = expected
      then (case get_next_token (lexer self) of
              Inl e \<Rightarrow> Inl e
            | Inr (tok, rest) \<Rightarrow> Inr \<lparr> lexer = rest, current_token = tok \<rparr>)
      else Inl (ValueError ''Expected {token_type}, got {self.current_token[0]}''))"

text \<open>The recursive-descent methods. Each call spends one unit of fuel; \<open>None\<close> is
  "out of fuel", \<open>Some (Inl e)\<close> a raised exception, \<open>Some (Inr (node, p))\<close> the
  node returned and the parser after the call. The \<^verbatim>\<open>while\<close> loops are the
  \<open>_loop\<close> functions.\<close>

function (sequential) iff_expr :: "nat \<Rightarrow> parser \<Rightarrow> (error + ast \<times> parser) option"
  and iff_loop :: "nat \<Rightarrow> ast \<Rightarrow> parser \<Rightarrow> (error + ast \<times> parser) option"
  and implies_expr :: "nat \<Rightarrow> parser \<Rightarrow> (error + ast \<times> parser) option"
  and implies_loop :: "nat \<Rightarrow> ast \<Rightarrow> parser \<Rightarrow> (error + ast \<times> parser) option"
  and or_expr :: "nat \<Rightarrow> parser \<Rightarrow> (error + ast \<times> parser) option"
  and or_loop :: "nat \<Rightarrow> ast \<Rightarrow> parser \<Rightarrow> (error + ast \<times> parser) option"
  and and_expr :: "nat \<Rightarrow> parser \<Rightarrow> (error + ast \<times> parser) option"
  and and_loop :: "nat \<Rightarrow> ast \<Rightarrow> parser \<Rightarrow> (error + ast \<times> parser) option"
  and unary :: "nat \<Rightarrow> parser \<Rightarrow> (error + ast \<times> parser) option"
where
  "iff_expr 0 p = None"
| "iff_expr (Suc n) p =
     (case implies_expr n p of
        None \<Rightarrow> None
      | Some (Inl e) \<Rightarrow> Some (Inl e)
      | Some (Inr (node, p1)) \<Rightarrow> iff_loop n node p1)"
| "iff_loop 0 node p = None"
| "iff_loop (Suc n) node p =
     (if token_type (current_token p) = ''IFF''
      then (case eat p ''IFF'' of
              Inl e \<Rightarrow> Some (Inl e)
            | Inr p1 \<Rightarrow>
                (case implies_expr n p1 of
                   None \<Rightarrow> None
                 | Some (Inl e) \<Rightarrow> Some (Inl e)
                 | Some (Inr (rhs, p2)) \<Rightarrow> iff_loop n (Iff node rhs) p2))
      else Some (Inr (node, p)))"
| "implies_expr 0 p = None"
| "implies_expr (Suc n) p =
     (case or_expr n p of
        None \<Rightarrow> None
      | Some (Inl e) \<Rightarrow> Some (Inl e)
      | Some (Inr (node, p1)) \<Rightarrow> implies_loop n node p1)"
| "implies_loop 0 node p = None"
| "implies_loop (Suc n) node p =
     (if token_type (current_token p) = ''IMPLIES''
      then (case eat p ''IMPLIES'' of
              Inl e \<Rightarrow> Some (Inl e)
            | Inr p1 \<Rightarrow>
                (case or_expr n p1 of
                   None \<Rightarrow> None
                 | Some (Inl e) \<Rightarrow> Some (Inl e)
                 | Some (Inr (rhs, p2)) \<Rightarrow> implies_loop n (Implies node rhs) p2))
      else Some (Inr (node, p)))"
| "or_expr 0 p = None"
| "or_expr (Suc n) p =
     (case and_expr n p of
        None \<Rightarrow> None
      | Some (Inl e) \<Rightarrow> Some (Inl e)
      | Some (Inr (node, p1)) \<Rightarrow> or_loop n node p1)"
| "or_loop 0 node p = None"
| "or_loop (Suc n) node p =
     (if token_type (current_token p) = ''OR''
      then (case eat p ''OR'' of
              Inl e \<Rightarrow> Some (Inl e)
            | Inr p1 \<Rightarrow>
                (case and_expr n p1 of
                   None \<Rightarrow> None
                 | Some (Inl e) \<Rightarrow> Some (Inl e)
                 | Some (Inr (rhs, p2)) \<Rightarrow> or_loop n (Or node rhs) p2))
      else Some (Inr (node, p)))"
| "and_expr 0 p = None"
| "and_expr (Suc n) p =
     (case unary n p of
        None \<Rightarrow> None
      | Some (Inl e) \<Rightarrow> Some (Inl e)
      | Some (Inr (node, p1)) \<Rightarrow> and_loop n node p1)"
| "and_loop 0 node p = None"
| "and_loop (Suc n) node p =
     (if token_type (current_token p) = ''AND''
      then (case eat p ''AND'' of
              Inl e \<Rightarrow> Some (Inl e)
            | Inr p1 \<Rightarrow>
                (case unary n p1 of
                   None \<Rightarrow> None
                 | Some (Inl e) \<Rightarrow> Some (Inl e)
                 | Some (Inr (rhs, p2)) \<Rightarrow> and_loop n (And node rhs) p2))
      else Some (Inr (node, p)))"
| "unary 0 p = None"
| "unary (Suc n) p =
     (case current_token p of
        NOT \<Rightarrow>
          (case eat p ''NOT'' of
             Inl e \<Rightarrow> Some (Inl e)
           | Inr p1 \<Rightarrow>
               (case unary n p1 of
                  None \<Rightarrow> None
                | Some (Inl e) \<Rightarrow> Some (Inl e)
                | Some (Inr (child, p2)) \<Rightarrow> Some (Inr (Not_node child, p2))))
      | BOX \<Rightarrow>
          (case eat p ''BOX'' of
             Inl e \<Rightarrow> Some (Inl e)
           | Inr p1 \<Rightarrow>
               (case unary n p1 of
                  None \<Rightarrow> None
                | Some (Inl e) \<Rightarrow> Some (Inl e)
                | Some (Inr (child, p2)) \<Rightarrow> Some (Inr (Box child, p2))))
      | DIAMOND \<Rightarrow>
          (case eat p ''DIAMOND'' of
             Inl e \<Rightarrow> Some (Inl e)
           | Inr p1 \<Rightarrow>
               (case unary n p1 of
                  None \<Rightarrow> None
                | Some (Inl e) \<Rightarrow> Some (Inl e)
                | Some (Inr (child, p2)) \<Rightarrow> Some (Inr (Diamond child, p2))))
      | LPAREN \<Rightarrow>
          (case eat p ''LPAREN'' of
             Inl e \<Rightarrow> Some (Inl e)
           | Inr p1 \<Rightarrow>
               (case iff_expr n p1 of
                  None \<Rightarrow> None
                | Some (Inl e) \<Rightarrow> Some (Inl e)
                | Some (Inr (node, p2)) \<Rightarrow>
                    (case eat p2 ''RPAREN'' of
                       Inl e \<Rightarrow> Some (Inl e)
                     | Inr p3 \<Rightarrow> Some (Inr (node, p3)))))
      | ATOM nm \<Rightarrow>
          (case eat p ''ATOM'' of
             Inl e \<Rightarrow> Some (Inl e)
           | Inr p1 \<Rightarrow> Some (Inr (Atom nm, p1)))
      | _ \<Rightarrow> Some (Inl (ValueError ''Unexpected syntax in formula'')))"
  by pat_completeness auto
termination
  by (relation "measure (case_sum (case_sum (case_sum fst fst) (case_sum fst fst))
        (case_sum (case_sum fst fst) (case_sum fst (case_sum fst fst))))") simp_all

text \<open>\<^verbatim>\<open>FormulaParser(text).parse()\<close>. The fuel is linear in the length of the text:
  between two tokens the methods nest less than ten deep.\<close>

definition parse :: "string \<Rightarrow> (error + ast) option" where
  "parse text =
     (case FormulaParser_init text of
        Inl e \<Rightarrow> Some (Inl e)
      | Inr p \<Rightarrow>
          (case iff_expr (10 * (length text + 2)) p of
             None \<Rightarrow> None
           | Some (Inl e) \<Rightarrow> Some (Inl e)
           | Some (Inr (result, p1)) \<Rightarrow>
               if token_type (current_token p1) \<noteq> ''EOF''
               then Some (Inl (ValueError ''Unexpected characters at end of formula''))
               else Some (Inr result)))"

subsection \<open>Evaluation\<close>

text \<open>The loop of \<^verbatim>\<open>Box.evaluate\<close> over the accessible worlds stops at the first
  exception: \<open>first_error\<close> returns it, or the values when there is none. The set
  \<^verbatim>\<open>relativized_values\<close> is the list of values without repetitions.\<close>

fun first_error :: "(error + string) list \<Rightarrow> error + string list" where
  "first_error [] = Inr []"
| "first_error (Inl e # rest) = Inl e"
| "first_error (Inr v # rest) =
     (case first_error rest of
        Inl e \<Rightarrow> Inl e
      | Inr vs \<Rightarrow> Inr (v # vs))"

text \<open>The size that decreases along the calls of \<^verbatim>\<open>evaluate\<close>: \<^verbatim>\<open>Iff\<close> and \<^verbatim>\<open>Diamond\<close>
  build new nodes and evaluate them.\<close>

fun ast_weight :: "ast \<Rightarrow> nat" where
  "ast_weight (Atom nm) = 1"
| "ast_weight (Not_node child) = 1 + ast_weight child"
| "ast_weight (And left right) = 1 + ast_weight left + ast_weight right"
| "ast_weight (Or left right) = 1 + ast_weight left + ast_weight right"
| "ast_weight (Implies left right) = 1 + ast_weight left + ast_weight right"
| "ast_weight (Iff left right) = 4 + 2 * ast_weight left + 2 * ast_weight right"
| "ast_weight (Box child) = 1 + ast_weight child"
| "ast_weight (Diamond child) = 4 + ast_weight child"

text \<open>\<^verbatim>\<open>ASTNode.evaluate(model, world, interpretation)\<close>, one equation per subclass.\<close>

function evaluate :: "ast \<Rightarrow> model \<Rightarrow> world \<Rightarrow> string \<Rightarrow> error + string" where
  "evaluate (Atom nm) m w interpretation =
     (case map_of (assignments w) nm of
        Some v \<Rightarrow> Inr v
      | None \<Rightarrow>
          Inl (ValueError ''Proposition '{self.name}' is not defined in world '{world.name_long}'.''))"
| "evaluate (Not_node child) m w interpretation =
     (case evaluate child m w interpretation of
        Inl e \<Rightarrow> Inl e
      | Inr val \<Rightarrow>
          (case map_of (negation_map (many_lattice m)) val of
             None \<Rightarrow> Inl (ValueError ''Negation not defined for '{val}' in the Base Lattice.'')
           | Some negated_base \<Rightarrow>
               if interpretation = ''up''
               then up_interpretation (many_lattice m) (lattice w) negated_base
               else down_interpretation (many_lattice m) (lattice w) negated_base))"
| "evaluate (And left right) m w interpretation =
     (case evaluate left m w interpretation of
        Inl e \<Rightarrow> Inl e
      | Inr val_a \<Rightarrow>
          (case evaluate right m w interpretation of
             Inl e \<Rightarrow> Inl e
           | Inr val_b \<Rightarrow> meet (lattice w) val_a val_b))"
| "evaluate (Or left right) m w interpretation =
     (case evaluate left m w interpretation of
        Inl e \<Rightarrow> Inl e
      | Inr val_a \<Rightarrow>
          (case evaluate right m w interpretation of
             Inl e \<Rightarrow> Inl e
           | Inr val_b \<Rightarrow> join (lattice w) val_a val_b))"
| "evaluate (Implies left right) m w interpretation =
     (case evaluate left m w interpretation of
        Inl e \<Rightarrow> Inl e
      | Inr val_a \<Rightarrow>
          (case evaluate right m w interpretation of
             Inl e \<Rightarrow> Inl e
           | Inr val_b \<Rightarrow>
               (case map_of (implication_map (many_lattice m)) (val_a, val_b) of
                  Some base_result \<Rightarrow>
                    if interpretation = ''up''
                    then up_interpretation (many_lattice m) (lattice w) base_result
                    else down_interpretation (many_lattice m) (lattice w) base_result
                | None \<Rightarrow>
                    (case map_of (negation_map (many_lattice m)) val_a of
                       None \<Rightarrow>
                         Inl (ValueError
                           ''Negation not defined for '{val_a}' (required for implication fallback).'')
                     | Some neg_a_base \<Rightarrow>
                         (case (if interpretation = ''up''
                                then up_interpretation (many_lattice m) (lattice w) neg_a_base
                                else down_interpretation (many_lattice m) (lattice w) neg_a_base) of
                            Inl e \<Rightarrow> Inl e
                          | Inr val_not_a \<Rightarrow> join (lattice w) val_not_a val_b)))))"
| "evaluate (Iff left right) m w interpretation =
     evaluate (And (Implies left right) (Implies right left)) m w interpretation"
| "evaluate (Box child) m w interpretation =
     (let accessible_worlds =
            (case map_of (accessibility_relation m) w of None \<Rightarrow> [] | Some ws \<Rightarrow> ws)
      in if accessible_worlds = [] then get_top (lattice w)
         else
           (case first_error
                   (map (\<lambda>u. case evaluate child m u interpretation of
                               Inl e \<Rightarrow> Inl e
                             | Inr raw_val \<Rightarrow>
                                 if interpretation = ''up''
                                 then up_interpretation (many_lattice m) (lattice w) raw_val
                                 else down_interpretation (many_lattice m) (lattice w) raw_val)
                      accessible_worlds) of
              Inl e \<Rightarrow> Inl e
            | Inr relativized_values \<Rightarrow>
                meet_set (lattice w) (Some (remdups relativized_values))))"
| "evaluate (Diamond child) m w interpretation =
     evaluate (Not_node (Box (Not_node child))) m w interpretation"
  by pat_completeness auto
termination
  by (relation "measure (\<lambda>(node, m, w, interpretation). ast_weight node)") simp_all

subsection \<open>Fuel of the parser\<close>

text \<open>What is left to read: the characters after the current token, and the current
  token unless it is the end of the input. \<open>progress c n f\<close> says that \<open>f\<close> returns
  with fuel \<open>n\<close> on every parser with \<open>5 * remaining + c \<le> n\<close> and, when it returns
  a node, has read at least one token; \<open>no_regress\<close> is the same for the loops, which
  may read nothing.\<close>

definition remaining :: "parser \<Rightarrow> nat" where
  "remaining p = length (lexer p) + (if current_token p = EOF then 0 else 1)"

definition progress ::
  "nat \<Rightarrow> nat \<Rightarrow> (parser \<Rightarrow> (error + ast \<times> parser) option) \<Rightarrow> bool" where
  "progress c n f =
     (\<forall>p. 5 * remaining p + c \<le> n \<longrightarrow>
        f p \<noteq> None \<and> (\<forall>node p'. f p = Some (Inr (node, p')) \<longrightarrow> remaining p' < remaining p))"

definition no_regress ::
  "nat \<Rightarrow> nat \<Rightarrow> (parser \<Rightarrow> (error + ast \<times> parser) option) \<Rightarrow> bool" where
  "no_regress c n f =
     (\<forall>p. 5 * remaining p + c \<le> n \<longrightarrow>
        f p \<noteq> None \<and> (\<forall>node p'. f p = Some (Inr (node, p')) \<longrightarrow> remaining p' \<le> remaining p))"

subsection \<open>Example structures\<close>

text \<open>The two-valued Boolean lattice \<open>0 \<le> 1\<close> with its negation table, as
  \<^verbatim>\<open>Lattice.__init__\<close> leaves it.\<close>

definition bool_lattice :: lattice where
  "bool_lattice =
     \<lparr> name = ''B'', elements = [''0'', ''1''],
       relations = {(''0'', ''0''), (''0'', ''1''), (''1'', ''1'')},
       negation_map = [(''0'', ''1''), (''1'', ''0'')], implication_map = [],
       bottom_attr = Some ''0'', top_attr = Some ''1'' \<rparr>"

text \<open>Three elements \<open>b \<le> a \<le> c\<close> where \<open>a \<le> a\<close> is missing from the relation.\<close>

definition nonrefl_lattice :: lattice where
  "nonrefl_lattice =
     \<lparr> name = ''N'', elements = [''a'', ''b'', ''c''],
       relations = {(''b'', ''b''), (''c'', ''c''), (''b'', ''a''), (''a'', ''c''), (''b'', ''c'')},
       negation_map = [], implication_map = [],
       bottom_attr = Some ''b'', top_attr = Some ''c'' \<rparr>"

text \<open>Two elements related in both directions, in the two scan orders.\<close>

definition sym_lattice_01 :: lattice where
  "sym_lattice_01 =
     \<lparr> name = ''S'', elements = [''0'', ''1''],
       relations = {(''0'', ''0''), (''0'', ''1''), (''1'', ''0''), (''1'', ''1'')},
       negation_map = [], implication_map = [],
       bottom_attr = Some ''0'', top_attr = Some ''0'' \<rparr>"

definition sym_lattice_10 :: lattice where
  "sym_lattice_10 =
     \<lparr> name = ''S'', elements = [''1'', ''0''],
       relations = {(''0'', ''0''), (''0'', ''1''), (''1'', ''0''), (''1'', ''1'')},
       negation_map = [], implication_map = [],
       bottom_attr = Some ''1'', top_attr = Some ''1'' \<rparr>"

text \<open>The Boolean scenario: the Boolean lattice as base and as the only registered
  sublattice, one world with \<open>p = 1\<close> and \<open>q = 0\<close>, and the model of that world.\<close>

definition bool_many_lattice :: many_lattice where
  "bool_many_lattice =
     \<lparr> name = ''B'', elements = [''0'', ''1''],
       relations = {(''0'', ''0''), (''0'', ''1''), (''1'', ''1'')},
       negation_map = [(''0'', ''1''), (''1'', ''0'')], implication_map = [],
       bottom_attr = Some ''0'', top_attr = Some ''1'',
       name_filtered_lattice = ''FB'', filter_set = [],
       comp_sub_lat = [bool_lattice], name_many_lattice = ''MB'' \<rparr>"

definition bool_world :: world where
  "bool_world = World_init 1 ''world one'' ''w1'' bool_lattice (Some [(''p'', ''1''), (''q'', ''0'')])"

definition bool_model :: model where
  "bool_model = Model_init ''M'' bool_many_lattice [bool_world] bool_world None None None"

text \<open>A world of the Boolean lattice with no assignment, and its model.\<close>

definition blank_world :: world where
  "blank_world = World_init 2 ''world two'' ''w2'' bool_lattice None"

definition blank_model :: model where
  "blank_model = Model_init ''M2'' bool_many_lattice [blank_world] blank_world None None None"

text \<open>A one-element lattice whose element is not a base element of the Boolean
  many-lattice, and a world that lives in \<open>nonrefl_lattice\<close>, which the Boolean
  many-lattice does not register.\<close>

definition lattice_x :: lattice where
  "lattice_x =
     \<lparr> name = ''X'', elements = [''x''], relations = {(''x'', ''x'')},
       negation_map = [], implication_map = [],
       bottom_attr = Some ''x'', top_attr = Some ''x'' \<rparr>"

definition stray_world :: world where
  "stray_world = World_init 3 ''world three'' ''w3'' nonrefl_lattice None"

text \<open>Three worlds of the Boolean lattice with one edge \<open>wa \<rightarrow> wb\<close>; \<open>wc\<close> has no edge.\<close>

definition world_a :: world where
  "world_a = World_init 10 ''world a'' ''wa'' bool_lattice None"

definition world_b :: world where
  "world_b = World_init 11 ''world b'' ''wb'' bool_lattice None"

definition world_c :: world where
  "world_c = World_init 12 ''world c'' ''wc'' bool_lattice None"

definition edge_model :: model where
  "edge_model =
     Model_init ''E'' bool_many_lattice [world_a, world_b, world_c] world_a
       (Some [(world_a, [world_b])]) None None"

text \<open>The two Boolean elements with the order reversed (\<open>1 \<le> 0\<close>), and the Boolean
  many-lattice with that lattice as its registered sublattice.\<close>

definition rev_lattice :: lattice where
  "rev_lattice =
     \<lparr> name = ''R'', elements = [''0'', ''1''],
       relations = {(''0'', ''0''), (''1'', ''0''), (''1'', ''1'')},
       negation_map = [], implication_map = [],
       bottom_attr = Some ''1'', top_attr = Some ''0'' \<rparr>"

definition rev_many_lattice :: many_lattice where
  "rev_many_lattice = bool_many_lattice\<lparr> comp_sub_lat := [rev_lattice], name_many_lattice := ''MR'' \<rparr>"

text \<open>The chain \<open>0 \<le> h \<le> 1\<close> as base, with the Boolean lattice \<open>{0, 1}\<close> as its registered
  sublattice; \<open>h\<close> is not an element of the sublattice.\<close>

definition chain_many_lattice :: many_lattice where
  "chain_many_lattice =
     \<lparr> name = ''C'', elements = [''0'', ''h'', ''1''],
       relations = {(''0'', ''0''), (''0'', ''h''), (''0'', ''1''),
                    (''h'', ''h''), (''h'', ''1''), (''1'', ''1'')},
       negation_map = [], implication_map = [],
       bottom_attr = Some ''0'', top_attr = Some ''1'',
       name_filtered_lattice = ''FC'', filter_set = [],
       comp_sub_lat = [bool_lattice], name_many_lattice = ''MC'' \<rparr>"

section \<open>Properties\<close>

subsection \<open>Meet and join\<close>

lemma le_fun: "is_less_than_or_equal L = (\<lambda>a b. (a, b) \<in> relations L)"
  by (intro ext) (simp add: is_less_than_or_equal_def)

lemma meet_cong_fields:
  "elements L = elements L' \<Longrightarrow> relations L = relations L' \<Longrightarrow> meet L a b = meet L' a b"
  by (simp add: meet_def le_fun Let_def)

lemma join_cong_fields:
  "elements L = elements L' \<Longrightarrow> relations L = relations L' \<Longrightarrow> join L a b = join L' a b"
  by (simp add: join_def le_fun Let_def)

lemma meet_loop_cong_fields:
  "elements L = elements L' \<Longrightarrow> relations L = relations L' \<Longrightarrow>
   meet_loop L g xs = meet_loop L' g xs"
  by (induction xs arbitrary: g) (simp_all add: meet_cong_fields [of L L'] split: sum.splits)

lemma join_loop_cong_fields:
  "elements L = elements L' \<Longrightarrow> relations L = relations L' \<Longrightarrow>
   join_loop L g xs = join_loop L' g xs"
  by (induction xs arbitrary: g) (simp_all add: join_cong_fields [of L L'] split: sum.splits)

lemma check_pairs_cong_fields:
  "elements L = elements L' \<Longrightarrow> relations L = relations L' \<Longrightarrow>
   check_pairs L ps = check_pairs L' ps"
  by (induction ps) (auto simp: meet_cong_fields [of L L'] join_cong_fields [of L L'] split: sum.splits)

lemma meet_not_other_error: "meet L a b = Inl e \<Longrightarrow> \<exists>msg. e = ValueError msg"
  by (auto simp: meet_def Let_def split: if_splits option.splits)

lemma join_not_other_error: "join L a b = Inl e \<Longrightarrow> \<exists>msg. e = ValueError msg"
  by (auto simp: join_def Let_def split: if_splits option.splits)

lemma check_pairs_error: "check_pairs L ps = Inl e \<Longrightarrow> \<exists>msg. e = ValueError msg"
  by (induction ps) (auto split: sum.splits dest: meet_not_other_error join_not_other_error)

lemma check_pairs_Inr:
  "check_pairs L ps = Inr u \<Longrightarrow> (x, y) \<in> set ps \<Longrightarrow>
   (\<exists>m. meet L x y = Inr m) \<and> (\<exists>j. join L x y = Inr j)"
  by (induction ps) (auto split: sum.splits)

lemma find_Some_mem: "find P xs = Some x \<Longrightarrow> x \<in> set xs \<and> P x"
  by (induction xs) (auto split: if_splits)

lemma joinD:
  assumes "join L a b = Inr x"
  shows "a \<in> set (elements L)" and "b \<in> set (elements L)" and "x \<in> set (elements L)"
    and "(a, x) \<in> relations L" and "(b, x) \<in> relations L"
    and "\<And>y. y \<in> set (elements L) \<Longrightarrow> (a, y) \<in> relations L \<Longrightarrow> (b, y) \<in> relations L
           \<Longrightarrow> (x, y) \<in> relations L"
proof -
  let ?ubs = "filter (\<lambda>x. (a, x) \<in> relations L \<and> (b, x) \<in> relations L) (elements L)"
  from assms have mem: "a \<in> set (elements L) \<and> b \<in> set (elements L)"
    by (simp add: join_def split: if_splits)
  from assms have fnd: "find (\<lambda>x. list_all (\<lambda>y. (x, y) \<in> relations L) ?ubs) ?ubs = Some x"
    by (simp add: join_def le_fun Let_def split: if_splits option.splits)
  from fnd have xin: "x \<in> set ?ubs" and least: "list_all (\<lambda>y. (x, y) \<in> relations L) ?ubs"
    by (auto dest: find_Some_mem)
  show "a \<in> set (elements L)" and "b \<in> set (elements L)" using mem by simp_all
  show "x \<in> set (elements L)" and "(a, x) \<in> relations L" and "(b, x) \<in> relations L"
    using xin by simp_all
  fix y assume "y \<in> set (elements L)" "(a, y) \<in> relations L" "(b, y) \<in> relations L"
  then have "y \<in> set ?ubs" by simp
  with least show "(x, y) \<in> relations L" by (simp add: list_all_iff)
qed

lemma meetD:
  assumes "meet L a b = Inr x"
  shows "a \<in> set (elements L)" and "b \<in> set (elements L)" and "x \<in> set (elements L)"
    and "(x, a) \<in> relations L" and "(x, b) \<in> relations L"
    and "\<And>y. y \<in> set (elements L) \<Longrightarrow> (y, a) \<in> relations L \<Longrightarrow> (y, b) \<in> relations L
           \<Longrightarrow> (y, x) \<in> relations L"
proof -
  let ?lbs = "filter (\<lambda>x. (x, a) \<in> relations L \<and> (x, b) \<in> relations L) (elements L)"
  from assms have mem: "a \<in> set (elements L) \<and> b \<in> set (elements L)"
    by (simp add: meet_def split: if_splits)
  from assms have fnd: "find (\<lambda>x. list_all (\<lambda>y. (y, x) \<in> relations L) ?lbs) ?lbs = Some x"
    by (simp add: meet_def le_fun Let_def split: if_splits option.splits)
  from fnd have xin: "x \<in> set ?lbs" and greatest: "list_all (\<lambda>y. (y, x) \<in> relations L) ?lbs"
    by (auto dest: find_Some_mem)
  show "a \<in> set (elements L)" and "b \<in> set (elements L)" using mem by simp_all
  show "x \<in> set (elements L)" and "(x, a) \<in> relations L" and "(x, b) \<in> relations L"
    using xin by simp_all
  fix y assume "y \<in> set (elements L)" "(y, a) \<in> relations L" "(y, b) \<in> relations L"
  then have "y \<in> set ?lbs" by simp
  with greatest show "(y, x) \<in> relations L" by (simp add: list_all_iff)
qed

lemma find_same_set:
  assumes "set xs = set ys"
    and "\<And>x y. x \<in> set xs \<Longrightarrow> y \<in> set xs \<Longrightarrow> P x \<Longrightarrow> P y \<Longrightarrow> x = y"
  shows "find P xs = find P ys"
proof (cases "find P xs")
  case None
  then have "\<not> (\<exists>x\<in>set ys. P x)" using assms(1) by (simp add: find_None_iff)
  then have "find P ys = None" by (simp add: find_None_iff)
  with None show ?thesis by simp
next
  case (Some x)
  then have x: "x \<in> set xs" "P x" by (auto dest: find_Some_mem)
  then have "find P ys \<noteq> None" using assms(1) by (auto simp: find_None_iff)
  then obtain y where y: "find P ys = Some y" by auto
  then have "y \<in> set ys" "P y" by (auto dest: find_Some_mem)
  with x assms have "x = y" by auto
  with Some y show ?thesis by simp
qed

lemma list_empty_same_set: "set xs = set ys \<Longrightarrow> (xs = []) = (ys = [])"
proof -
  assume "set xs = set ys"
  then have "(set xs = {}) = (set ys = {})" by simp
  then show ?thesis by (simp only: set_empty)
qed

lemma least_scan_same_set:
  assumes sets: "set xs = set ys"
    and anti: "\<And>x y. x \<in> set xs \<Longrightarrow> y \<in> set xs \<Longrightarrow> (x, y) \<in> R \<Longrightarrow> (y, x) \<in> R \<Longrightarrow> x = y"
  shows "find (\<lambda>x. list_all (\<lambda>y. (x, y) \<in> R) xs) xs = find (\<lambda>x. list_all (\<lambda>y. (x, y) \<in> R) ys) ys"
proof -
  have P: "(\<lambda>x. list_all (\<lambda>y. (x, y) \<in> R) xs) = (\<lambda>x. list_all (\<lambda>y. (x, y) \<in> R) ys)"
    unfolding list_all_iff sets ..
  have "find (\<lambda>x. list_all (\<lambda>y. (x, y) \<in> R) xs) xs = find (\<lambda>x. list_all (\<lambda>y. (x, y) \<in> R) xs) ys"
  proof (rule find_same_set [OF sets])
    fix x y
    assume "x \<in> set xs" "y \<in> set xs"
      and "list_all (\<lambda>y. (x, y) \<in> R) xs" "list_all (\<lambda>x. (y, x) \<in> R) xs"
    then show "x = y" by (intro anti) (simp_all add: list_all_iff)
  qed
  then show ?thesis by (simp only: P)
qed

lemma greatest_scan_same_set:
  assumes sets: "set xs = set ys"
    and anti: "\<And>x y. x \<in> set xs \<Longrightarrow> y \<in> set xs \<Longrightarrow> (x, y) \<in> R \<Longrightarrow> (y, x) \<in> R \<Longrightarrow> x = y"
  shows "find (\<lambda>x. list_all (\<lambda>y. (y, x) \<in> R) xs) xs = find (\<lambda>x. list_all (\<lambda>y. (y, x) \<in> R) ys) ys"
proof -
  have P: "(\<lambda>x. list_all (\<lambda>y. (y, x) \<in> R) xs) = (\<lambda>x. list_all (\<lambda>y. (y, x) \<in> R) ys)"
    unfolding list_all_iff sets ..
  have "find (\<lambda>x. list_all (\<lambda>y. (y, x) \<in> R) xs) xs = find (\<lambda>x. list_all (\<lambda>y. (y, x) \<in> R) xs) ys"
  proof (rule find_same_set [OF sets])
    fix x y
    assume "x \<in> set xs" "y \<in> set xs"
      and "list_all (\<lambda>y. (y, x) \<in> R) xs" "list_all (\<lambda>x. (x, y) \<in> R) xs"
    then show "x = y" by (intro anti) (simp_all add: list_all_iff)
  qed
  then show ?thesis by (simp only: P)
qed

lemma join_scan_order:
  assumes els: "set (elements L') = set (elements L)"
    and rel: "relations L' = relations L"
    and anti: "antisym_on (set (elements L)) (relations L)"
  shows "join L' a b = join L a b"
proof -
  let ?Q = "\<lambda>x. (a, x) \<in> relations L \<and> (b, x) \<in> relations L"
  have sets: "set (filter ?Q (elements L')) = set (filter ?Q (elements L))"
    using els by simp
  have "find (\<lambda>x. list_all (\<lambda>y. (x, y) \<in> relations L) (filter ?Q (elements L')))
          (filter ?Q (elements L')) =
        find (\<lambda>x. list_all (\<lambda>y. (x, y) \<in> relations L) (filter ?Q (elements L)))
          (filter ?Q (elements L))"
  proof (rule least_scan_same_set [OF sets])
    fix x y
    assume "x \<in> set (filter ?Q (elements L'))" "y \<in> set (filter ?Q (elements L'))"
    then have "x \<in> set (elements L)" "y \<in> set (elements L)" using els by simp_all
    moreover assume "(x, y) \<in> relations L" "(y, x) \<in> relations L"
    ultimately show "x = y" using anti unfolding antisym_on_def by blast
  qed
  moreover note list_empty_same_set [OF sets]
  ultimately show ?thesis
    unfolding join_def le_fun Let_def rel els by (simp only:)
qed

lemma meet_scan_order:
  assumes els: "set (elements L') = set (elements L)"
    and rel: "relations L' = relations L"
    and anti: "antisym_on (set (elements L)) (relations L)"
  shows "meet L' a b = meet L a b"
proof -
  let ?Q = "\<lambda>x. (x, a) \<in> relations L \<and> (x, b) \<in> relations L"
  have sets: "set (filter ?Q (elements L')) = set (filter ?Q (elements L))"
    using els by simp
  have "find (\<lambda>x. list_all (\<lambda>y. (y, x) \<in> relations L) (filter ?Q (elements L')))
          (filter ?Q (elements L')) =
        find (\<lambda>x. list_all (\<lambda>y. (y, x) \<in> relations L) (filter ?Q (elements L)))
          (filter ?Q (elements L))"
  proof (rule greatest_scan_same_set [OF sets])
    fix x y
    assume "x \<in> set (filter ?Q (elements L'))" "y \<in> set (filter ?Q (elements L'))"
    then have "x \<in> set (elements L)" "y \<in> set (elements L)" using els by simp_all
    moreover assume "(x, y) \<in> relations L" "(y, x) \<in> relations L"
    ultimately show "x = y" using anti unfolding antisym_on_def by blast
  qed
  moreover note list_empty_same_set [OF sets]
  ultimately show ?thesis
    unfolding meet_def le_fun Let_def rel els by (simp only:)
qed

lemma meet_commute: "meet L a b = meet L b a"
  by (simp add: meet_def le_fun Let_def conj_commute disj_commute)

lemma join_commute: "join L a b = join L b a"
  by (simp add: join_def le_fun Let_def conj_commute disj_commute)


lemma meet_set_cong_fields:
  assumes "elements L = elements L'" and "relations L = relations L'" and "xs \<noteq> []"
  shows "meet_set L (Some xs) = meet_set L' (Some xs)"
proof -
  have "meet_loop L = meet_loop L'"
    by (intro ext) (rule meet_loop_cong_fields [OF assms(1,2)])
  then show ?thesis using assms(3) by (simp add: meet_set_def split: list.splits)
qed

lemma join_set_cong_fields:
  assumes "elements L = elements L'" and "relations L = relations L'" and "xs \<noteq> []"
  shows "join_set L (Some xs) = join_set L' (Some xs)"
proof -
  have "join_loop L = join_loop L'"
    by (intro ext) (rule join_loop_cong_fields [OF assms(1,2)])
  then show ?thesis using assms(3) by (simp add: join_set_def split: list.splits)
qed

lemma check_is_lattice_True:
  "check_is_lattice L = Inr True \<Longrightarrow>
   \<exists>u. check_pairs L (List.product (elements L) (elements L)) = Inr u"
  by (auto simp: check_is_lattice_def split: sum.splits error.splits)

lemma Lattice_init_Inr:
  assumes "Lattice_init nm els rels neg imp = Inr L"
  shows "name L = nm" and "elements L = remdups els" and "relations L = rels"
    and "elements L \<noteq> []"
    and "\<exists>u. check_pairs L (List.product (elements L) (elements L)) = Inr u"
    and "\<exists>b. bottom_attr L = Some b \<and> meet_set L (Some (elements L)) = Inr b"
    and "\<exists>t. top_attr L = Some t \<and> join_set L (Some (elements L)) = Inr t"
proof -
  define L0 :: lattice where
    "L0 = \<lparr> name = nm, elements = remdups els, relations = rels,
            negation_map = (case neg of None \<Rightarrow> [] | Some m \<Rightarrow> m),
            implication_map = (case imp of None \<Rightarrow> [] | Some m \<Rightarrow> m),
            bottom_attr = None, top_attr = None \<rparr>"
  from assms obtain b t where
    chk: "check_is_lattice L0 = Inr True" and
    b: "meet_set L0 (Some (elements L0)) = Inr b" and
    t: "join_set (L0\<lparr>bottom_attr := Some b\<rparr>) (Some (elements L0)) = Inr t" and
    L: "L = L0\<lparr>bottom_attr := Some b, top_attr := Some t\<rparr>"
    unfolding Lattice_init_def L0_def [symmetric] Let_def
    by (auto split: sum.splits if_splits)
  have ne: "elements L0 \<noteq> []"
    using b by (auto simp: meet_set_def get_top_def L0_def)
  have fields: "elements L = elements L0" "relations L = relations L0"
    "elements (L0\<lparr>bottom_attr := Some b\<rparr>) = elements L0"
    "relations (L0\<lparr>bottom_attr := Some b\<rparr>) = relations L0"
    by (simp_all add: L)
  show "name L = nm" and "elements L = remdups els" and "relations L = rels"
    by (simp_all add: L L0_def)
  show "elements L \<noteq> []" using ne fields by simp
  from check_is_lattice_True [OF chk]
  show "\<exists>u. check_pairs L (List.product (elements L) (elements L)) = Inr u"
    by (simp add: check_pairs_cong_fields [OF fields(1,2)] fields)
  have "meet_set L (Some (elements L0)) = Inr b"
    using b meet_set_cong_fields [OF fields(1,2) ne] by simp
  then show "\<exists>b. bottom_attr L = Some b \<and> meet_set L (Some (elements L)) = Inr b"
    by (simp add: L)
  have "join_set L (Some (elements L0)) = Inr t"
    using t join_set_cong_fields [OF fields(1,2) ne]
      join_set_cong_fields [OF fields(3,4) ne] by simp
  then show "\<exists>t. top_attr L = Some t \<and> join_set L (Some (elements L)) = Inr t"
    by (simp add: L)
qed

lemma Lattice_init_closed:
  assumes "Lattice_init nm els rels neg imp = Inr L"
    and "x \<in> set (elements L)" and "y \<in> set (elements L)"
  shows "\<exists>m. meet L x y = Inr m" and "\<exists>j. join L x y = Inr j"
proof -
  from Lattice_init_Inr(5) [OF assms(1)] obtain u
    where "check_pairs L (List.product (elements L) (elements L)) = Inr u" ..
  moreover have "(x, y) \<in> set (List.product (elements L) (elements L))"
    using assms(2,3) by simp
  ultimately have "(\<exists>m. meet L x y = Inr m) \<and> (\<exists>j. join L x y = Inr j)"
    by (rule check_pairs_Inr)
  then show "\<exists>m. meet L x y = Inr m" and "\<exists>j. join L x y = Inr j" by simp_all
qed

subsection \<open>The lattice engine\<close>

text \<open>
  Claim C4, as the code has it. For every lattice that \<^verbatim>\<open>Lattice.__init__\<close> accepted and
  all its elements \<open>a\<close>, \<open>b\<close>: \<open>meet a b\<close> and \<open>join a b\<close> return without error and are
  commutative. If the relation is antisymmetric on the elements, the results do not
  depend on the scan order: every lattice with the same set of elements and the same
  relation returns the same values. If it is also reflexive on the elements, then
  \<open>meet a a = a\<close> and \<open>join a a = a\<close>.
\<close>

theorem meet_join_valid_lattice:
  assumes init: "Lattice_init nm els rels neg imp = Inr L"
    and a: "a \<in> set (elements L)" and b: "b \<in> set (elements L)"
  shows "\<exists>m j. meet L a b = Inr m \<and> join L a b = Inr j \<and>
           meet L b a = Inr m \<and> join L b a = Inr j \<and>
           (antisym_on (set (elements L)) (relations L) \<longrightarrow>
              (\<forall>L' :: lattice. set (elements L') = set (elements L) \<and> relations L' = relations L \<longrightarrow>
                 meet L' a b = Inr m \<and> join L' a b = Inr j) \<and>
              (refl_on (set (elements L)) (relations L) \<longrightarrow>
                 meet L a a = Inr a \<and> join L a a = Inr a))"
proof -
  from Lattice_init_closed [OF init a b] obtain m j
    where m: "meet L a b = Inr m" and j: "join L a b = Inr j" by blast
  from Lattice_init_closed [OF init a a] obtain m' j'
    where m': "meet L a a = Inr m'" and j': "join L a a = Inr j'" by blast
  have idem: "m' = a \<and> j' = a"
    if anti: "antisym_on (set (elements L)) (relations L)"
      and refl: "refl_on (set (elements L)) (relations L)"
  proof -
    have aa: "(a, a) \<in> relations L" using refl a by (simp add: refl_on_def)
    have "(m', a) \<in> relations L" "(a, m') \<in> relations L" "m' \<in> set (elements L)"
      using meetD [OF m'] aa a by blast+
    moreover have "(a, j') \<in> relations L" "(j', a) \<in> relations L" "j' \<in> set (elements L)"
      using joinD [OF j'] aa a by blast+
    ultimately show ?thesis using anti a unfolding antisym_on_def by blast
  qed
  show ?thesis
    using m j m' j' idem meet_commute [of L a b] join_commute [of L a b]
      meet_scan_order [of _ L a b] join_scan_order [of _ L a b]
    by (intro exI [of _ m] exI [of _ j]) auto
qed

text \<open>The theorem at the Boolean lattice, \<open>a = 0\<close> and \<open>b = 1\<close>.\<close>

theorem meet_join_valid_lattice_witness:
  "Lattice_init ''B'' [''0'', ''1''] {(''0'', ''0''), (''0'', ''1''), (''1'', ''1'')}
     (Some [(''0'', ''1''), (''1'', ''0'')]) None = Inr bool_lattice \<and>
   ''0'' \<in> set (elements bool_lattice) \<and> ''1'' \<in> set (elements bool_lattice) \<and>
   antisym_on (set (elements bool_lattice)) (relations bool_lattice) \<and>
   refl_on (set (elements bool_lattice)) (relations bool_lattice) \<and>
   meet bool_lattice ''0'' ''1'' = Inr ''0'' \<and> meet bool_lattice ''1'' ''0'' = Inr ''0'' \<and>
   join bool_lattice ''0'' ''1'' = Inr ''1'' \<and> join bool_lattice ''1'' ''0'' = Inr ''1'' \<and>
   meet bool_lattice ''0'' ''0'' = Inr ''0'' \<and> join bool_lattice ''0'' ''0'' = Inr ''0''"
proof -
  have init: "Lattice_init ''B'' [''0'', ''1''] {(''0'', ''0''), (''0'', ''1''), (''1'', ''1'')}
     (Some [(''0'', ''1''), (''1'', ''0'')]) None = Inr bool_lattice"
    by code_simp
  have a: "''0'' \<in> set (elements bool_lattice)" and b: "''1'' \<in> set (elements bool_lattice)"
    by (simp_all add: bool_lattice_def)
  have anti: "antisym_on (set (elements bool_lattice)) (relations bool_lattice)"
    and refl: "refl_on (set (elements bool_lattice)) (relations bool_lattice)"
    by (simp_all add: antisym_on_def refl_on_def bool_lattice_def)
  have m: "meet bool_lattice ''0'' ''1'' = Inr ''0''" by code_simp
  have j: "join bool_lattice ''0'' ''1'' = Inr ''1''" by code_simp
  from meet_join_valid_lattice [OF init a b] m j anti refl
  have "meet bool_lattice ''1'' ''0'' = Inr ''0''" "join bool_lattice ''1'' ''0'' = Inr ''1''"
    "meet bool_lattice ''0'' ''0'' = Inr ''0''" "join bool_lattice ''0'' ''0'' = Inr ''0''"
    by auto
  with init a b anti refl m j show ?thesis by simp
qed

text \<open>
  Claim C4 as the specification states it fails: passing the closure check does not make
  the relation a partial order. In \<open>nonrefl_lattice\<close> the relation lacks \<open>a \<le> a\<close>, the
  check passes and \<open>meet a a\<close> is \<open>b\<close>. In \<open>sym_lattice_01\<close> and \<open>sym_lattice_10\<close> the
  relation is not antisymmetric, the check passes and \<open>meet 0 1\<close> is the element scanned
  first.
\<close>

theorem meet_idempotent_unique_counterexample:
  "Lattice_init ''N'' [''a'', ''b'', ''c'']
     {(''b'', ''b''), (''c'', ''c''), (''b'', ''a''), (''a'', ''c''), (''b'', ''c'')} None None
     = Inr nonrefl_lattice \<and>
   ''a'' \<in> set (elements nonrefl_lattice) \<and>
   meet nonrefl_lattice ''a'' ''a'' = Inr ''b'' \<and>
   join nonrefl_lattice ''a'' ''a'' = Inr ''c'' \<and>
   Lattice_init ''S'' [''0'', ''1'']
     {(''0'', ''0''), (''0'', ''1''), (''1'', ''0''), (''1'', ''1'')} None None
     = Inr sym_lattice_01 \<and>
   Lattice_init ''S'' [''1'', ''0'']
     {(''0'', ''0''), (''0'', ''1''), (''1'', ''0''), (''1'', ''1'')} None None
     = Inr sym_lattice_10 \<and>
   set (elements sym_lattice_01) = set (elements sym_lattice_10) \<and>
   relations sym_lattice_01 = relations sym_lattice_10 \<and>
   meet sym_lattice_01 ''0'' ''1'' = Inr ''0'' \<and>
   meet sym_lattice_10 ''0'' ''1'' = Inr ''1''"
proof -
  have "Lattice_init ''N'' [''a'', ''b'', ''c'']
     {(''b'', ''b''), (''c'', ''c''), (''b'', ''a''), (''a'', ''c''), (''b'', ''c'')} None None
     = Inr nonrefl_lattice"
    by code_simp
  moreover have "meet nonrefl_lattice ''a'' ''a'' = Inr ''b''" by code_simp
  moreover have "join nonrefl_lattice ''a'' ''a'' = Inr ''c''" by code_simp
  moreover have "Lattice_init ''S'' [''0'', ''1'']
     {(''0'', ''0''), (''0'', ''1''), (''1'', ''0''), (''1'', ''1'')} None None
     = Inr sym_lattice_01"
    by code_simp
  moreover have "Lattice_init ''S'' [''1'', ''0'']
     {(''0'', ''0''), (''0'', ''1''), (''1'', ''0''), (''1'', ''1'')} None None
     = Inr sym_lattice_10"
    by code_simp
  moreover have "meet sym_lattice_01 ''0'' ''1'' = Inr ''0''" by code_simp
  moreover have "meet sym_lattice_10 ''0'' ''1'' = Inr ''1''" by code_simp
  moreover have "''a'' \<in> set (elements nonrefl_lattice)"
    by (simp add: nonrefl_lattice_def)
  moreover have "set (elements sym_lattice_01) = set (elements sym_lattice_10)"
    by (auto simp: sym_lattice_01_def sym_lattice_10_def)
  moreover have "relations sym_lattice_01 = relations sym_lattice_10"
    by (simp add: sym_lattice_01_def sym_lattice_10_def)
  ultimately show ?thesis by (simp only: simp_thms)
qed

text \<open>
  Claim C5. For every lattice that \<^verbatim>\<open>Lattice.__init__\<close> accepted, \<^verbatim>\<open>meet_set\<close> of the empty
  set (and of the default argument \<^verbatim>\<open>None\<close>) returns \<^verbatim>\<open>top\<close>, and \<^verbatim>\<open>join_set\<close> of the
  empty set returns \<^verbatim>\<open>bottom\<close>.
\<close>

theorem meet_set_join_set_empty:
  assumes "Lattice_init nm els rels neg imp = Inr L"
  shows "\<exists>t b. top_attr L = Some t \<and> bottom_attr L = Some b \<and>
           meet_set L (Some []) = Inr t \<and> meet_set L None = Inr t \<and>
           join_set L (Some []) = Inr b \<and> join_set L None = Inr b"
  using Lattice_init_Inr(6,7) [OF assms]
  by (auto simp: meet_set_def join_set_def get_top_def get_bottom_def)

theorem meet_set_join_set_empty_witness:
  "Lattice_init ''B'' [''0'', ''1''] {(''0'', ''0''), (''0'', ''1''), (''1'', ''1'')}
     (Some [(''0'', ''1''), (''1'', ''0'')]) None = Inr bool_lattice \<and>
   top_attr bool_lattice = Some ''1'' \<and> bottom_attr bool_lattice = Some ''0'' \<and>
   meet_set bool_lattice (Some []) = Inr ''1'' \<and> join_set bool_lattice (Some []) = Inr ''0''"
proof -
  have init: "Lattice_init ''B'' [''0'', ''1''] {(''0'', ''0''), (''0'', ''1''), (''1'', ''1'')}
     (Some [(''0'', ''1''), (''1'', ''0'')]) None = Inr bool_lattice"
    by code_simp
  have "top_attr bool_lattice = Some ''1''" "bottom_attr bool_lattice = Some ''0''"
    by (simp_all add: bool_lattice_def)
  with meet_set_join_set_empty [OF init] init show ?thesis by auto
qed

text \<open>
  Claim C10. Constructing a lattice with no element never succeeds, whatever the name,
  the relation and the tables: the closure check passes over no pair, then
  \<^verbatim>\<open>meet_set\<close> of the empty element set reads \<^verbatim>\<open>self.top\<close> before it is assigned. The
  error is an \<^verbatim>\<open>AttributeError\<close>, not the \<^verbatim>\<open>ValueError\<close> of an invalid lattice.
\<close>

theorem lattice_init_empty_elements:
  "Lattice_init nm [] rels neg imp = Inl (AttributeError ''top'')"
  by (simp add: Lattice_init_def check_is_lattice_def meet_set_def get_top_def)

subsection \<open>Interpretation between the base lattice and a sublattice\<close>

text \<open>When the sublattice's relation is transitive on its elements, \<^verbatim>\<open>join_set\<close> of a
  non-empty list of elements is their least upper bound, \<^verbatim>\<open>meet_set\<close> their greatest
  lower bound, and \<^verbatim>\<open>bottom\<close> and \<^verbatim>\<open>top\<close> are below and above every element.\<close>

lemma join_loop_lub:
  assumes closed: "\<And>x y. x \<in> set (elements L) \<Longrightarrow> y \<in> set (elements L) \<Longrightarrow> \<exists>j. join L x y = Inr j"
    and tr: "trans_on (set (elements L)) (relations L)"
    and g: "g \<in> set (elements L)" and xs: "set xs \<subseteq> set (elements L)"
  shows "\<exists>r. join_loop L g xs = Inr r \<and> r \<in> set (elements L) \<and>
           (xs = [] \<and> r = g \<or> xs \<noteq> [] \<and> (g, r) \<in> relations L) \<and>
           (\<forall>x\<in>set xs. (x, r) \<in> relations L) \<and>
           (\<forall>u\<in>set (elements L). (g, u) \<in> relations L \<longrightarrow>
              (\<forall>x\<in>set xs. (x, u) \<in> relations L) \<longrightarrow> (r, u) \<in> relations L)"
  using g xs
proof (induction xs arbitrary: g)
  case Nil
  then show ?case by simp
next
  case (Cons x xs)
  then have x: "x \<in> set (elements L)" and xs': "set xs \<subseteq> set (elements L)" by simp_all
  from closed [OF Cons.prems(1) x] obtain g' where g': "join L g x = Inr g'" ..
  note jd = joinD [OF g']
  from Cons.IH [OF jd(3) xs'] obtain r where
    r: "join_loop L g' xs = Inr r" "r \<in> set (elements L)"
      "xs = [] \<and> r = g' \<or> xs \<noteq> [] \<and> (g', r) \<in> relations L"
      "\<forall>y\<in>set xs. (y, r) \<in> relations L"
      "\<forall>u\<in>set (elements L). (g', u) \<in> relations L \<longrightarrow>
          (\<forall>y\<in>set xs. (y, u) \<in> relations L) \<longrightarrow> (r, u) \<in> relations L"
    by blast
  have step: "\<And>z. z \<in> set (elements L) \<Longrightarrow> (z, g') \<in> relations L \<Longrightarrow> (z, r) \<in> relations L"
  proof -
    fix z assume z: "z \<in> set (elements L)" "(z, g') \<in> relations L"
    from r(3) show "(z, r) \<in> relations L"
    proof
      assume "xs = [] \<and> r = g'" with z show ?thesis by simp
    next
      assume "xs \<noteq> [] \<and> (g', r) \<in> relations L"
      with z jd(3) r(2) tr show ?thesis unfolding trans_on_def by blast
    qed
  qed
  have "(g, r) \<in> relations L" using step [OF Cons.prems(1) jd(4)] .
  moreover have "(x, r) \<in> relations L" using step [OF x jd(5)] .
  moreover have "(r, u) \<in> relations L"
    if "u \<in> set (elements L)" "(g, u) \<in> relations L" "\<forall>y\<in>set (x # xs). (y, u) \<in> relations L" for u
  proof -
    from that have "(g', u) \<in> relations L" using jd(6) [of u] by simp
    with r(5) that show ?thesis by simp
  qed
  ultimately show ?case using g' r(1,2,4) by auto
qed

lemma join_set_lub:
  assumes closed: "\<And>x y. x \<in> set (elements L) \<Longrightarrow> y \<in> set (elements L) \<Longrightarrow> \<exists>j. join L x y = Inr j"
    and tr: "trans_on (set (elements L)) (relations L)"
    and ne: "xs \<noteq> []" and xs: "set xs \<subseteq> set (elements L)"
  shows "\<exists>r. join_set L (Some xs) = Inr r \<and> r \<in> set (elements L) \<and>
           (\<forall>x\<in>set xs. (x, r) \<in> relations L) \<and>
           (\<forall>u\<in>set (elements L). (\<forall>x\<in>set xs. (x, u) \<in> relations L) \<longrightarrow> (r, u) \<in> relations L)"
proof -
  from ne obtain first rest where split: "xs = first # rest" by (cases xs) auto
  with xs have first: "first \<in> set (elements L)" by simp
  from join_loop_lub [OF closed tr first xs] split
  show ?thesis by (auto simp: join_set_def)
qed

lemma meet_loop_glb:
  assumes closed: "\<And>x y. x \<in> set (elements L) \<Longrightarrow> y \<in> set (elements L) \<Longrightarrow> \<exists>m. meet L x y = Inr m"
    and tr: "trans_on (set (elements L)) (relations L)"
    and g: "g \<in> set (elements L)" and xs: "set xs \<subseteq> set (elements L)"
  shows "\<exists>r. meet_loop L g xs = Inr r \<and> r \<in> set (elements L) \<and>
           (xs = [] \<and> r = g \<or> xs \<noteq> [] \<and> (r, g) \<in> relations L) \<and>
           (\<forall>x\<in>set xs. (r, x) \<in> relations L) \<and>
           (\<forall>u\<in>set (elements L). (u, g) \<in> relations L \<longrightarrow>
              (\<forall>x\<in>set xs. (u, x) \<in> relations L) \<longrightarrow> (u, r) \<in> relations L)"
  using g xs
proof (induction xs arbitrary: g)
  case Nil
  then show ?case by simp
next
  case (Cons x xs)
  then have x: "x \<in> set (elements L)" and xs': "set xs \<subseteq> set (elements L)" by simp_all
  from closed [OF Cons.prems(1) x] obtain g' where g': "meet L g x = Inr g'" ..
  note md = meetD [OF g']
  from Cons.IH [OF md(3) xs'] obtain r where
    r: "meet_loop L g' xs = Inr r" "r \<in> set (elements L)"
      "xs = [] \<and> r = g' \<or> xs \<noteq> [] \<and> (r, g') \<in> relations L"
      "\<forall>y\<in>set xs. (r, y) \<in> relations L"
      "\<forall>u\<in>set (elements L). (u, g') \<in> relations L \<longrightarrow>
          (\<forall>y\<in>set xs. (u, y) \<in> relations L) \<longrightarrow> (u, r) \<in> relations L"
    by blast
  have step: "\<And>z. z \<in> set (elements L) \<Longrightarrow> (g', z) \<in> relations L \<Longrightarrow> (r, z) \<in> relations L"
  proof -
    fix z assume z: "z \<in> set (elements L)" "(g', z) \<in> relations L"
    from r(3) show "(r, z) \<in> relations L"
    proof
      assume "xs = [] \<and> r = g'" with z show ?thesis by simp
    next
      assume "xs \<noteq> [] \<and> (r, g') \<in> relations L"
      with z md(3) r(2) tr show ?thesis unfolding trans_on_def by blast
    qed
  qed
  have "(r, g) \<in> relations L" using step [OF Cons.prems(1) md(4)] .
  moreover have "(r, x) \<in> relations L" using step [OF x md(5)] .
  moreover have "(u, r) \<in> relations L"
    if "u \<in> set (elements L)" "(u, g) \<in> relations L" "\<forall>y\<in>set (x # xs). (u, y) \<in> relations L" for u
  proof -
    from that have "(u, g') \<in> relations L" using md(6) [of u] by simp
    with r(5) that show ?thesis by simp
  qed
  ultimately show ?case using g' r(1,2,4) by auto
qed

lemma meet_set_glb:
  assumes closed: "\<And>x y. x \<in> set (elements L) \<Longrightarrow> y \<in> set (elements L) \<Longrightarrow> \<exists>m. meet L x y = Inr m"
    and tr: "trans_on (set (elements L)) (relations L)"
    and ne: "xs \<noteq> []" and xs: "set xs \<subseteq> set (elements L)"
  shows "\<exists>r. meet_set L (Some xs) = Inr r \<and> r \<in> set (elements L) \<and>
           (\<forall>x\<in>set xs. (r, x) \<in> relations L) \<and>
           (\<forall>u\<in>set (elements L). (\<forall>x\<in>set xs. (u, x) \<in> relations L) \<longrightarrow> (u, r) \<in> relations L)"
proof -
  from ne obtain first rest where split: "xs = first # rest" by (cases xs) auto
  with xs have first: "first \<in> set (elements L)" by simp
  from meet_loop_glb [OF closed tr first xs] split
  show ?thesis by (auto simp: meet_set_def)
qed

lemma Lattice_init_bottom_top:
  assumes init: "Lattice_init nm els rels neg imp = Inr L"
    and tr: "trans_on (set (elements L)) (relations L)"
  shows "\<exists>b. get_bottom L = Inr b \<and> b \<in> set (elements L) \<and>
           (\<forall>x\<in>set (elements L). (b, x) \<in> relations L)"
    and "\<exists>t. get_top L = Inr t \<and> t \<in> set (elements L) \<and>
           (\<forall>x\<in>set (elements L). (x, t) \<in> relations L)"
proof -
  note facts = Lattice_init_Inr [OF init]
  from facts(6) obtain b where b: "bottom_attr L = Some b" "meet_set L (Some (elements L)) = Inr b"
    by blast
  from facts(7) obtain t where t: "top_attr L = Some t" "join_set L (Some (elements L)) = Inr t"
    by blast
  from meet_set_glb [OF Lattice_init_closed(1) [OF init] tr facts(4) subset_refl] b
  show "\<exists>b. get_bottom L = Inr b \<and> b \<in> set (elements L) \<and>
           (\<forall>x\<in>set (elements L). (b, x) \<in> relations L)"
    by (auto simp: get_bottom_def)
  from join_set_lub [OF Lattice_init_closed(2) [OF init] tr facts(4) subset_refl] t
  show "\<exists>t. get_top L = Inr t \<and> t \<in> set (elements L) \<and>
           (\<forall>x\<in>set (elements L). (x, t) \<in> relations L)"
    by (auto simp: get_top_def)
qed

text \<open>\<^verbatim>\<open>down_interpretation\<close> returns, in the sublattice's order, a least upper bound of
  the sublattice elements below \<open>a\<close> in the base order; \<^verbatim>\<open>up_interpretation\<close> is dual.\<close>

lemma down_interpretation_lub:
  assumes init: "Lattice_init nm els rels neg imp = Inr L"
    and reg: "L \<in> set (comp_sub_lat base)"
    and tr: "trans_on (set (elements L)) (relations L)"
  shows "\<exists>d. down_interpretation base L a = Inr d \<and> d \<in> set (elements L) \<and>
           (a \<in> set (elements L) \<longrightarrow> d = a) \<and>
           (a \<notin> set (elements L) \<longrightarrow>
              (\<forall>x\<in>set (elements L). (x, a) \<in> relations base \<longrightarrow> (x, d) \<in> relations L) \<and>
              (\<forall>u\<in>set (elements L).
                 (\<forall>x\<in>set (elements L). (x, a) \<in> relations base \<longrightarrow> (x, u) \<in> relations L) \<longrightarrow>
                 (d, u) \<in> relations L))"
proof -
  let ?S = "filter (\<lambda>x. (x, a) \<in> relations base) (elements L)"
  have name: "name L \<in> set (map name (comp_sub_lat base))" using reg by simp
  show ?thesis
  proof (cases "a \<in> set (elements L)")
    case True
    with name show ?thesis by (simp add: down_interpretation_def)
  next
    case False
    show ?thesis
    proof (cases "?S = []")
      case True
      then have none: "\<forall>x\<in>set (elements L). (x, a) \<notin> relations base"
        by (simp add: filter_empty_conv)
      from Lattice_init_bottom_top(1) [OF init tr] obtain b where
        "get_bottom L = Inr b" "b \<in> set (elements L)" "\<forall>x\<in>set (elements L). (b, x) \<in> relations L"
        by blast
      with name False True none show ?thesis
        by (simp add: down_interpretation_def le_fun Let_def)
    next
      case ne: False
      have sub: "set ?S \<subseteq> set (elements L)" by auto
      from join_set_lub [OF Lattice_init_closed(2) [OF init] tr ne sub] obtain r where
        "join_set L (Some ?S) = Inr r" "r \<in> set (elements L)"
        "\<forall>x\<in>set ?S. (x, r) \<in> relations L"
        "\<forall>u\<in>set (elements L). (\<forall>x\<in>set ?S. (x, u) \<in> relations L) \<longrightarrow> (r, u) \<in> relations L"
        by blast
      with name False ne show ?thesis
        by (simp add: down_interpretation_def le_fun Let_def)
    qed
  qed
qed

lemma up_interpretation_glb:
  assumes init: "Lattice_init nm els rels neg imp = Inr L"
    and reg: "L \<in> set (comp_sub_lat base)"
    and tr: "trans_on (set (elements L)) (relations L)"
  shows "\<exists>d. up_interpretation base L a = Inr d \<and> d \<in> set (elements L) \<and>
           (a \<in> set (elements L) \<longrightarrow> d = a) \<and>
           (a \<notin> set (elements L) \<longrightarrow>
              (\<forall>x\<in>set (elements L). (a, x) \<in> relations base \<longrightarrow> (d, x) \<in> relations L) \<and>
              (\<forall>u\<in>set (elements L).
                 (\<forall>x\<in>set (elements L). (a, x) \<in> relations base \<longrightarrow> (u, x) \<in> relations L) \<longrightarrow>
                 (u, d) \<in> relations L))"
proof -
  let ?S = "filter (\<lambda>x. (a, x) \<in> relations base) (elements L)"
  have name: "name L \<in> set (map name (comp_sub_lat base))" using reg by simp
  show ?thesis
  proof (cases "a \<in> set (elements L)")
    case True
    with name show ?thesis by (simp add: up_interpretation_def)
  next
    case False
    show ?thesis
    proof (cases "?S = []")
      case True
      then have none: "\<forall>x\<in>set (elements L). (a, x) \<notin> relations base"
        by (simp add: filter_empty_conv)
      from Lattice_init_bottom_top(2) [OF init tr] obtain t where
        "get_top L = Inr t" "t \<in> set (elements L)" "\<forall>x\<in>set (elements L). (x, t) \<in> relations L"
        by blast
      with name False True none show ?thesis
        by (simp add: up_interpretation_def le_fun Let_def)
    next
      case ne: False
      have sub: "set ?S \<subseteq> set (elements L)" by auto
      from meet_set_glb [OF Lattice_init_closed(1) [OF init] tr ne sub] obtain r where
        "meet_set L (Some ?S) = Inr r" "r \<in> set (elements L)"
        "\<forall>x\<in>set ?S. (r, x) \<in> relations L"
        "\<forall>u\<in>set (elements L). (\<forall>x\<in>set ?S. (u, x) \<in> relations L) \<longrightarrow> (u, r) \<in> relations L"
        by blast
      with name False ne show ?thesis
        by (simp add: up_interpretation_def le_fun Let_def)
    qed
  qed
qed

text \<open>
  Claim C3, as the code has it. Let \<open>L\<close> be a lattice that \<^verbatim>\<open>Lattice.__init__\<close> accepted,
  registered in a many-lattice. If the base relation is transitive, the relation of \<open>L\<close>
  is transitive on the elements of \<open>L\<close>, and two elements of \<open>L\<close> related in the base
  relation are related in \<open>L\<close>, then for all \<open>a \<le> b\<close> in the base relation both
  interpretations return without error, \<open>down a \<le> down b\<close> and \<open>up a \<le> up b\<close> in the
  order of \<open>L\<close>.
\<close>

theorem interpretation_monotone:
  assumes init: "Lattice_init nm els rels neg imp = Inr L"
    and reg: "L \<in> set (comp_sub_lat base)"
    and trL: "trans_on (set (elements L)) (relations L)"
    and trB: "trans (relations base)"
    and agree: "\<forall>x\<in>set (elements L). \<forall>y\<in>set (elements L).
                  is_less_than_or_equal base x y \<longrightarrow> is_less_than_or_equal L x y"
    and ab: "is_less_than_or_equal base a b"
  shows "\<exists>da db ua ub.
           down_interpretation base L a = Inr da \<and> down_interpretation base L b = Inr db \<and>
           is_less_than_or_equal L da db \<and>
           up_interpretation base L a = Inr ua \<and> up_interpretation base L b = Inr ub \<and>
           is_less_than_or_equal L ua ub"
proof -
  have ab': "(a, b) \<in> relations base" using ab by (simp add: is_less_than_or_equal_def)
  have agree': "\<And>x y. x \<in> set (elements L) \<Longrightarrow> y \<in> set (elements L) \<Longrightarrow>
      (x, y) \<in> relations base \<Longrightarrow> (x, y) \<in> relations L"
    using agree by (simp add: is_less_than_or_equal_def)
  have below: "\<And>x. (x, a) \<in> relations base \<Longrightarrow> (x, b) \<in> relations base"
    using trB ab' by (blast dest: transD)
  have above: "\<And>x. (b, x) \<in> relations base \<Longrightarrow> (a, x) \<in> relations base"
    using trB ab' by (blast dest: transD)
  from down_interpretation_lub [OF init reg trL, of a] obtain da where
    da: "down_interpretation base L a = Inr da" "da \<in> set (elements L)"
      "a \<in> set (elements L) \<Longrightarrow> da = a"
      "a \<notin> set (elements L) \<Longrightarrow> \<forall>u\<in>set (elements L).
         (\<forall>x\<in>set (elements L). (x, a) \<in> relations base \<longrightarrow> (x, u) \<in> relations L) \<longrightarrow>
         (da, u) \<in> relations L"
    by blast
  from down_interpretation_lub [OF init reg trL, of b] obtain db where
    db: "down_interpretation base L b = Inr db" "db \<in> set (elements L)"
      "b \<in> set (elements L) \<Longrightarrow> db = b"
      "b \<notin> set (elements L) \<Longrightarrow>
         \<forall>x\<in>set (elements L). (x, b) \<in> relations base \<longrightarrow> (x, db) \<in> relations L"
    by blast
  have down: "(da, db) \<in> relations L"
  proof (cases "a \<in> set (elements L)")
    case a: True
    show ?thesis
    proof (cases "b \<in> set (elements L)")
      case True
      with a da(3) db(3) agree' ab' show ?thesis by simp
    next
      case False
      with a da(3) db(4) ab' show ?thesis by simp
    qed
  next
    case a: False
    have "\<forall>x\<in>set (elements L). (x, a) \<in> relations base \<longrightarrow> (x, db) \<in> relations L"
    proof (cases "b \<in> set (elements L)")
      case True
      with db(3) agree' below show ?thesis by blast
    next
      case False
      with db(4) below show ?thesis by blast
    qed
    with da(4) [OF a] db(2) show ?thesis by blast
  qed
  from up_interpretation_glb [OF init reg trL, of a] obtain ua where
    ua: "up_interpretation base L a = Inr ua" "ua \<in> set (elements L)"
      "a \<in> set (elements L) \<Longrightarrow> ua = a"
      "a \<notin> set (elements L) \<Longrightarrow>
         \<forall>x\<in>set (elements L). (a, x) \<in> relations base \<longrightarrow> (ua, x) \<in> relations L"
    by blast
  from up_interpretation_glb [OF init reg trL, of b] obtain ub where
    ub: "up_interpretation base L b = Inr ub" "ub \<in> set (elements L)"
      "b \<in> set (elements L) \<Longrightarrow> ub = b"
      "b \<notin> set (elements L) \<Longrightarrow> \<forall>u\<in>set (elements L).
         (\<forall>x\<in>set (elements L). (b, x) \<in> relations base \<longrightarrow> (u, x) \<in> relations L) \<longrightarrow>
         (u, ub) \<in> relations L"
    by blast
  have up: "(ua, ub) \<in> relations L"
  proof (cases "b \<in> set (elements L)")
    case b: True
    show ?thesis
    proof (cases "a \<in> set (elements L)")
      case True
      with b ua(3) ub(3) agree' ab' show ?thesis by simp
    next
      case False
      with b ua(4) ub(3) ab' show ?thesis by simp
    qed
  next
    case b: False
    have "\<forall>x\<in>set (elements L). (b, x) \<in> relations base \<longrightarrow> (ua, x) \<in> relations L"
    proof (cases "a \<in> set (elements L)")
      case True
      with ua(3) agree' above show ?thesis by blast
    next
      case False
      with ua(4) above show ?thesis by blast
    qed
    with ub(4) [OF b] ua(2) show ?thesis by blast
  qed
  from da(1) db(1) ua(1) ub(1) down up show ?thesis
    by (simp add: is_less_than_or_equal_def)
qed

text \<open>The theorem in the chain \<open>0 \<le> h \<le> 1\<close> with sublattice \<open>{0, 1}\<close>, at \<open>a = h\<close> and
  \<open>b = 1\<close>: \<open>h\<close> goes down to \<open>0\<close> and up to \<open>1\<close>.\<close>

theorem interpretation_monotone_witness:
  "Lattice_init ''B'' [''0'', ''1''] {(''0'', ''0''), (''0'', ''1''), (''1'', ''1'')}
     (Some [(''0'', ''1''), (''1'', ''0'')]) None = Inr bool_lattice \<and>
   ManyLattice_init ''MC'' ''FC'' ''C'' [''0'', ''h'', ''1'']
     {(''0'', ''0''), (''0'', ''h''), (''0'', ''1''), (''h'', ''h''), (''h'', ''1''), (''1'', ''1'')}
     [bool_lattice] None None None = Inr chain_many_lattice \<and>
   bool_lattice \<in> set (comp_sub_lat chain_many_lattice) \<and>
   trans_on (set (elements bool_lattice)) (relations bool_lattice) \<and>
   trans (relations chain_many_lattice) \<and>
   is_less_than_or_equal chain_many_lattice ''h'' ''1'' \<and>
   down_interpretation chain_many_lattice bool_lattice ''h'' = Inr ''0'' \<and>
   down_interpretation chain_many_lattice bool_lattice ''1'' = Inr ''1'' \<and>
   is_less_than_or_equal bool_lattice ''0'' ''1'' \<and>
   up_interpretation chain_many_lattice bool_lattice ''h'' = Inr ''1'' \<and>
   up_interpretation chain_many_lattice bool_lattice ''1'' = Inr ''1'' \<and>
   is_less_than_or_equal bool_lattice ''1'' ''1''"
proof -
  have init: "Lattice_init ''B'' [''0'', ''1''] {(''0'', ''0''), (''0'', ''1''), (''1'', ''1'')}
     (Some [(''0'', ''1''), (''1'', ''0'')]) None = Inr bool_lattice"
    by code_simp
  have many: "ManyLattice_init ''MC'' ''FC'' ''C'' [''0'', ''h'', ''1'']
     {(''0'', ''0''), (''0'', ''h''), (''0'', ''1''), (''h'', ''h''), (''h'', ''1''), (''1'', ''1'')}
     [bool_lattice] None None None = Inr chain_many_lattice"
    by code_simp
  have reg: "bool_lattice \<in> set (comp_sub_lat chain_many_lattice)"
    by (simp add: chain_many_lattice_def)
  have trL: "trans_on (set (elements bool_lattice)) (relations bool_lattice)"
    by (auto simp: bool_lattice_def trans_on_def)
  have trB: "trans (relations chain_many_lattice)"
    by (auto simp: chain_many_lattice_def trans_def)
  have agree: "\<forall>x\<in>set (elements bool_lattice). \<forall>y\<in>set (elements bool_lattice).
      is_less_than_or_equal chain_many_lattice x y \<longrightarrow> is_less_than_or_equal bool_lattice x y"
    by (simp add: bool_lattice_def chain_many_lattice_def is_less_than_or_equal_def)
  have ab: "is_less_than_or_equal chain_many_lattice ''h'' ''1''"
    by (simp add: chain_many_lattice_def is_less_than_or_equal_def)
  have vals: "down_interpretation chain_many_lattice bool_lattice ''h'' = Inr ''0''"
    "down_interpretation chain_many_lattice bool_lattice ''1'' = Inr ''1''"
    "up_interpretation chain_many_lattice bool_lattice ''h'' = Inr ''1''"
    "up_interpretation chain_many_lattice bool_lattice ''1'' = Inr ''1''"
    by code_simp+
  from interpretation_monotone [OF init reg trL trB agree ab] vals
  have "is_less_than_or_equal bool_lattice ''0'' ''1''"
    and "is_less_than_or_equal bool_lattice ''1'' ''1''"
    by auto
  with init many reg trL trB ab vals show ?thesis by (simp only: simp_thms)
qed

text \<open>
  Claim C3 as the specification states it fails: nothing relates the order of a
  registered sublattice to the base order. \<open>rev_lattice\<close> is a valid lattice on
  \<open>{0, 1}\<close> with \<open>1 \<le> 0\<close>, registered under the Boolean base where \<open>0 \<le> 1\<close>; both
  interpretations are the identity on \<open>0\<close> and \<open>1\<close>, and \<open>0 \<le> 1\<close> does not hold in
  \<open>rev_lattice\<close>.
\<close>

theorem interpretation_not_monotone_counterexample:
  "Lattice_init ''R'' [''0'', ''1''] {(''0'', ''0''), (''1'', ''0''), (''1'', ''1'')} None None
     = Inr rev_lattice \<and>
   ManyLattice_init ''MR'' ''FB'' ''B'' [''0'', ''1''] {(''0'', ''0''), (''0'', ''1''), (''1'', ''1'')}
     [rev_lattice] (Some [(''0'', ''1''), (''1'', ''0'')]) None None = Inr rev_many_lattice \<and>
   rev_lattice \<in> set (comp_sub_lat rev_many_lattice) \<and>
   ''0'' \<in> set (elements rev_many_lattice) \<and> ''1'' \<in> set (elements rev_many_lattice) \<and>
   is_less_than_or_equal rev_many_lattice ''0'' ''1'' \<and>
   down_interpretation rev_many_lattice rev_lattice ''0'' = Inr ''0'' \<and>
   down_interpretation rev_many_lattice rev_lattice ''1'' = Inr ''1'' \<and>
   up_interpretation rev_many_lattice rev_lattice ''0'' = Inr ''0'' \<and>
   up_interpretation rev_many_lattice rev_lattice ''1'' = Inr ''1'' \<and>
   \<not> is_less_than_or_equal rev_lattice ''0'' ''1''"
  by code_simp

subsection \<open>The evaluator\<close>

text \<open>
  Claim C1. In the two-valued Boolean scenario (the Boolean lattice \<open>{0, 1}\<close> with
  negation \<open>0 \<mapsto> 1\<close>, \<open>1 \<mapsto> 0\<close> and an empty implication table, registered as the only
  sublattice of a many-lattice over itself; one world with \<open>p = 1\<close> and \<open>q = 0\<close>), for
  every interpretation mode, the parsed formulas \<^verbatim>\<open>p & q\<close>, \<^verbatim>\<open>p | q\<close>, \<^verbatim>\<open>~p\<close> and
  \<^verbatim>\<open>p -> q\<close> evaluate to \<open>0\<close>, \<open>1\<close>, \<open>0\<close> and \<open>0\<close>; the last one by the fallback
  \<open>join (not p) q\<close>, as no implication entry exists.
\<close>

theorem boolean_scenario:
  "Lattice_init ''B'' [''0'', ''1''] {(''0'', ''0''), (''0'', ''1''), (''1'', ''1'')}
     (Some [(''0'', ''1''), (''1'', ''0'')]) (Some []) = Inr bool_lattice \<and>
   ManyLattice_init ''MB'' ''FB'' ''B'' [''0'', ''1''] {(''0'', ''0''), (''0'', ''1''), (''1'', ''1'')}
     [bool_lattice] (Some [(''0'', ''1''), (''1'', ''0'')]) (Some []) None
     = Inr bool_many_lattice \<and>
   parse ''p & q'' = Some (Inr (And (Atom ''p'') (Atom ''q''))) \<and>
   evaluate (And (Atom ''p'') (Atom ''q'')) bool_model bool_world interpretation = Inr ''0'' \<and>
   parse ''p | q'' = Some (Inr (Or (Atom ''p'') (Atom ''q''))) \<and>
   evaluate (Or (Atom ''p'') (Atom ''q'')) bool_model bool_world interpretation = Inr ''1'' \<and>
   parse ''~p'' = Some (Inr (Not_node (Atom ''p''))) \<and>
   evaluate (Not_node (Atom ''p'')) bool_model bool_world interpretation = Inr ''0'' \<and>
   parse ''p -> q'' = Some (Inr (Implies (Atom ''p'') (Atom ''q''))) \<and>
   map_of (implication_map (many_lattice bool_model)) (''1'', ''0'') = None \<and>
   evaluate (Implies (Atom ''p'') (Atom ''q'')) bool_model bool_world interpretation = Inr ''0''"
proof -
  have "Lattice_init ''B'' [''0'', ''1''] {(''0'', ''0''), (''0'', ''1''), (''1'', ''1'')}
     (Some [(''0'', ''1''), (''1'', ''0'')]) (Some []) = Inr bool_lattice"
    by code_simp
  moreover have "ManyLattice_init ''MB'' ''FB'' ''B'' [''0'', ''1'']
     {(''0'', ''0''), (''0'', ''1''), (''1'', ''1'')}
     [bool_lattice] (Some [(''0'', ''1''), (''1'', ''0'')]) (Some []) None
     = Inr bool_many_lattice"
    by code_simp
  moreover have "parse ''p & q'' = Some (Inr (And (Atom ''p'') (Atom ''q'')))"
    and "parse ''p | q'' = Some (Inr (Or (Atom ''p'') (Atom ''q'')))"
    and "parse ''~p'' = Some (Inr (Not_node (Atom ''p'')))"
    and "parse ''p -> q'' = Some (Inr (Implies (Atom ''p'') (Atom ''q'')))"
    by code_simp+
  moreover have
    "evaluate (And (Atom ''p'') (Atom ''q'')) bool_model bool_world interpretation = Inr ''0''"
    by (simp add: bool_model_def bool_world_def World_init_def Model_init_def bool_lattice_def
        meet_def Let_def le_fun)
  moreover have
    "evaluate (Or (Atom ''p'') (Atom ''q'')) bool_model bool_world interpretation = Inr ''1''"
    by (simp add: bool_model_def bool_world_def World_init_def Model_init_def bool_lattice_def
        join_def Let_def le_fun)
  moreover have
    "evaluate (Not_node (Atom ''p'')) bool_model bool_world interpretation = Inr ''0''"
    by (simp add: bool_model_def bool_world_def World_init_def Model_init_def bool_lattice_def
        bool_many_lattice_def up_interpretation_def down_interpretation_def)
  moreover have "map_of (implication_map (many_lattice bool_model)) (''1'', ''0'') = None"
    by (simp add: bool_model_def Model_init_def bool_many_lattice_def)
  moreover have
    "evaluate (Implies (Atom ''p'') (Atom ''q'')) bool_model bool_world interpretation = Inr ''0''"
    by (simp add: bool_model_def bool_world_def World_init_def Model_init_def bool_lattice_def
        bool_many_lattice_def up_interpretation_def down_interpretation_def join_def Let_def
        le_fun)
  ultimately show ?thesis by (simp only: simp_thms)
qed

text \<open>
  Claim C2. For every model, every world \<open>w\<close> (with a lattice that \<^verbatim>\<open>Lattice.__init__\<close>
  accepted) whose entry in the accessibility relation is the empty set, every formula
  \<open>A\<close> and every interpretation mode, \<^verbatim>\<open>Box(A)\<close> evaluates at \<open>w\<close> to the top of \<open>w\<close>'s
  lattice and raises nothing; \<open>A\<close> is not evaluated, so its atoms need no assignment.
\<close>

theorem box_vacuous_top:
  assumes "Lattice_init nm els rels neg imp = Inr (lattice w)"
    and "map_of (accessibility_relation m) w = Some []"
  shows "\<exists>t. top_attr (lattice w) = Some t \<and> evaluate (Box A) m w interpretation = Inr t"
  using Lattice_init_Inr(7) [OF assms(1)] assms(2)
  by (auto simp: get_top_def)

text \<open>The theorem at a world where \<open>p\<close> has no assignment: \<open>p\<close> alone raises, \<open>[]p\<close> is
  the top \<open>1\<close>.\<close>

theorem box_vacuous_top_witness:
  "Lattice_init ''B'' [''0'', ''1''] {(''0'', ''0''), (''0'', ''1''), (''1'', ''1'')}
     (Some [(''0'', ''1''), (''1'', ''0'')]) None = Inr (lattice blank_world) \<and>
   map_of (accessibility_relation blank_model) blank_world = Some [] \<and>
   map_of (assignments blank_world) ''p'' = None \<and>
   top_attr (lattice blank_world) = Some ''1'' \<and>
   evaluate (Box (Atom ''p'')) blank_model blank_world ''down'' = Inr ''1'' \<and>
   evaluate (Box (Atom ''p'')) blank_model blank_world ''up'' = Inr ''1''"
proof -
  have init: "Lattice_init ''B'' [''0'', ''1''] {(''0'', ''0''), (''0'', ''1''), (''1'', ''1'')}
     (Some [(''0'', ''1''), (''1'', ''0'')]) None = Inr (lattice blank_world)"
    by code_simp
  have acc: "map_of (accessibility_relation blank_model) blank_world = Some []"
    by (simp add: blank_model_def Model_init_def)
  have "map_of (assignments blank_world) ''p'' = None"
    and top: "top_attr (lattice blank_world) = Some ''1''"
    by (simp_all add: blank_world_def World_init_def bool_lattice_def)
  with init acc
    box_vacuous_top [OF init acc, of "Atom ''p''" "''down''"]
    box_vacuous_top [OF init acc, of "Atom ''p''" "''up''"]
  show ?thesis by simp
qed

subsection \<open>Registered sublattices\<close>

text \<open>
  Claim C6, as the code has it. \<^verbatim>\<open>ManyLattice.__init__\<close> fails exactly when the base
  initialiser fails, whatever the list of sublattices, and stores that list as it is
  given; \<^verbatim>\<open>add_comp_sub_lat\<close> appends the lattice unless its name is already
  registered, which is its only ground for rejection. So every registered
  sublattice has its elements among the base elements after construction when that
  holds of the list passed in, and \<^verbatim>\<open>add_comp_sub_lat\<close> preserves it when it holds of
  the lattice added.
\<close>

theorem sublattice_elements_invariant:
  "((\<exists>e. ManyLattice_init nm_many nm_filtered nm_lattice els rels csl neg imp flt = Inl e) =
      (\<exists>e. FilteredLattice_init nm_filtered nm_lattice els rels neg imp flt = Inl e)) \<and>
   (ManyLattice_init nm_many nm_filtered nm_lattice els rels csl neg imp flt = Inr ml \<longrightarrow>
      comp_sub_lat ml = csl \<and> elements ml = remdups els \<and>
      ((\<forall>l\<in>set csl. set (elements l) \<subseteq> set els) \<longrightarrow>
       (\<forall>l\<in>set (comp_sub_lat ml). set (elements l) \<subseteq> set (elements ml)))) \<and>
   ((\<exists>e. add_comp_sub_lat ml' l' = Inl e) =
      (name l' \<in> set (map name (comp_sub_lat ml')))) \<and>
   (add_comp_sub_lat ml' l' = Inr ml'' \<longrightarrow>
      comp_sub_lat ml'' = comp_sub_lat ml' @ [l'] \<and> elements ml'' = elements ml' \<and>
      ((\<forall>l\<in>set (comp_sub_lat ml'). set (elements l) \<subseteq> set (elements ml')) \<and>
       set (elements l') \<subseteq> set (elements ml') \<longrightarrow>
       (\<forall>l\<in>set (comp_sub_lat ml''). set (elements l) \<subseteq> set (elements ml''))))"
proof -
  have init: "comp_sub_lat ml = csl \<and> elements ml = remdups els"
    if "ManyLattice_init nm_many nm_filtered nm_lattice els rels csl neg imp flt = Inr ml"
  proof -
    from that obtain fl where
      fl: "FilteredLattice_init nm_filtered nm_lattice els rels neg imp flt = Inr fl"
      and ml: "comp_sub_lat ml = csl" "elements ml = elements fl"
      by (auto simp: ManyLattice_init_def split: sum.splits)
    from fl obtain base where "Lattice_init nm_lattice els rels neg imp = Inr base"
      and "elements fl = elements base"
      by (auto simp: FilteredLattice_init_def Let_def split: sum.splits if_splits)
    with Lattice_init_Inr(2) [of nm_lattice els rels neg imp base] ml show ?thesis by simp
  qed
  have reject: "(\<exists>e. add_comp_sub_lat ml' l' = Inl e) =
      (name l' \<in> set (map name (comp_sub_lat ml')))"
    by (auto simp: add_comp_sub_lat_def get_comp_sub_lattice_def find_None_iff
        intro: rev_image_eqI)
  have add: "comp_sub_lat ml'' = comp_sub_lat ml' @ [l'] \<and> elements ml'' = elements ml'"
    if "add_comp_sub_lat ml' l' = Inr ml''"
    using that by (auto simp: add_comp_sub_lat_def split: if_splits)
  have fails: "(\<exists>e. ManyLattice_init nm_many nm_filtered nm_lattice els rels csl neg imp flt = Inl e) =
      (\<exists>e. FilteredLattice_init nm_filtered nm_lattice els rels neg imp flt = Inl e)"
    by (auto simp: ManyLattice_init_def split: sum.splits)
  from init reject add have rest:
    "(ManyLattice_init nm_many nm_filtered nm_lattice els rels csl neg imp flt = Inr ml \<longrightarrow>
        comp_sub_lat ml = csl \<and> elements ml = remdups els \<and>
        ((\<forall>l\<in>set csl. set (elements l) \<subseteq> set els) \<longrightarrow>
         (\<forall>l\<in>set (comp_sub_lat ml). set (elements l) \<subseteq> set (elements ml)))) \<and>
     ((\<exists>e. add_comp_sub_lat ml' l' = Inl e) =
        (name l' \<in> set (map name (comp_sub_lat ml')))) \<and>
     (add_comp_sub_lat ml' l' = Inr ml'' \<longrightarrow>
        comp_sub_lat ml'' = comp_sub_lat ml' @ [l'] \<and> elements ml'' = elements ml' \<and>
        ((\<forall>l\<in>set (comp_sub_lat ml'). set (elements l) \<subseteq> set (elements ml')) \<and>
         set (elements l') \<subseteq> set (elements ml') \<longrightarrow>
         (\<forall>l\<in>set (comp_sub_lat ml''). set (elements l) \<subseteq> set (elements ml''))))"
    by auto
  from fails rest show ?thesis by (rule conjI)
qed

text \<open>The theorem at the Boolean many-lattice: construction with \<open>[bool_lattice]\<close>, a
  rejected second registration under the same name, and an accepted one under a new
  name.\<close>

theorem sublattice_elements_invariant_witness:
  "ManyLattice_init ''MB'' ''FB'' ''B'' [''0'', ''1''] {(''0'', ''0''), (''0'', ''1''), (''1'', ''1'')}
     [bool_lattice] (Some [(''0'', ''1''), (''1'', ''0'')]) None None = Inr bool_many_lattice \<and>
   comp_sub_lat bool_many_lattice = [bool_lattice] \<and>
   set (elements bool_lattice) \<subseteq> set (elements bool_many_lattice) \<and>
   name bool_lattice \<in> set (map name (comp_sub_lat bool_many_lattice)) \<and>
   (\<exists>e. add_comp_sub_lat bool_many_lattice bool_lattice = Inl e) \<and>
   add_comp_sub_lat bool_many_lattice (bool_lattice\<lparr> name := ''B2'' \<rparr>)
     = Inr (bool_many_lattice\<lparr> comp_sub_lat := [bool_lattice, bool_lattice\<lparr> name := ''B2'' \<rparr>] \<rparr>) \<and>
   list_all (\<lambda>l. set (elements l) \<subseteq> set (elements bool_many_lattice))
     [bool_lattice, bool_lattice\<lparr> name := ''B2'' \<rparr>]"
proof -
  have init: "ManyLattice_init ''MB'' ''FB'' ''B'' [''0'', ''1'']
     {(''0'', ''0''), (''0'', ''1''), (''1'', ''1'')}
     [bool_lattice] (Some [(''0'', ''1''), (''1'', ''0'')]) None None = Inr bool_many_lattice"
    by code_simp
  have sub: "set (elements bool_lattice) \<subseteq> set (elements bool_many_lattice)"
    by (simp add: bool_lattice_def bool_many_lattice_def)
  have reg: "name bool_lattice \<in> set (map name (comp_sub_lat bool_many_lattice))"
    by (simp add: bool_many_lattice_def)
  have add: "add_comp_sub_lat bool_many_lattice (bool_lattice\<lparr> name := ''B2'' \<rparr>)
     = Inr (bool_many_lattice\<lparr> comp_sub_lat := [bool_lattice, bool_lattice\<lparr> name := ''B2'' \<rparr>] \<rparr>)"
    by code_simp
  note inst = sublattice_elements_invariant
    [where ml = bool_many_lattice and ml' = bool_many_lattice and l' = bool_lattice,
     of "''MB''" "''FB''" "''B''" "[''0'', ''1'']" "{(''0'', ''0''), (''0'', ''1''), (''1'', ''1'')}"
       "[bool_lattice]" "Some [(''0'', ''1''), (''1'', ''0'')]" None None]
  from inst init have csl: "comp_sub_lat bool_many_lattice = [bool_lattice]" by blast
  from inst reg have rej: "\<exists>e. add_comp_sub_lat bool_many_lattice bool_lattice = Inl e" by blast
  have all: "list_all (\<lambda>l. set (elements l) \<subseteq> set (elements bool_many_lattice))
     [bool_lattice, bool_lattice\<lparr> name := ''B2'' \<rparr>]"
    using sub by simp
  from init csl sub reg rej add all show ?thesis by (simp only: simp_thms)
qed

text \<open>
  Claim C6 as the specification states it fails: neither operation looks at the
  elements. The one-element lattice \<open>lattice_x\<close>, whose element \<open>x\<close> is not a base
  element, is accepted in the list at construction and by \<^verbatim>\<open>add_comp_sub_lat\<close>.
\<close>

theorem sublattice_elements_counterexample:
  "Lattice_init ''X'' [''x''] {(''x'', ''x'')} None None = Inr lattice_x \<and>
   ManyLattice_init ''MX'' ''FB'' ''B'' [''0'', ''1''] {(''0'', ''0''), (''0'', ''1''), (''1'', ''1'')}
     [lattice_x] (Some [(''0'', ''1''), (''1'', ''0'')]) None None
     = Inr (bool_many_lattice\<lparr> comp_sub_lat := [lattice_x], name_many_lattice := ''MX'' \<rparr>) \<and>
   add_comp_sub_lat bool_many_lattice lattice_x
     = Inr (bool_many_lattice\<lparr> comp_sub_lat := [bool_lattice, lattice_x] \<rparr>) \<and>
   \<not> set (elements lattice_x) \<subseteq> set (elements bool_many_lattice)"
  by code_simp

subsection \<open>Model\<close>

text \<open>
  Claim C7 holds of \<^verbatim>\<open>add_world\<close> only. \<^verbatim>\<open>Model.__init__\<close> makes no test on the
  lattices of the worlds it is given: \<open>stray_world\<close>, whose lattice \<open>N\<close> is not
  registered in the Boolean many-lattice, is a world of the constructed model, while
  \<^verbatim>\<open>add_world\<close> rejects the same world and leaves the model as it was.
\<close>

theorem model_init_unregistered_lattice:
  "name (lattice stray_world) \<notin> set (map name (comp_sub_lat bool_many_lattice)) \<and>
   worlds (Model_init ''M'' bool_many_lattice [stray_world] stray_world None None None)
     = [stray_world] \<and>
   many_lattice (Model_init ''M'' bool_many_lattice [stray_world] stray_world None None None)
     = bool_many_lattice \<and>
   add_world (Model_init ''M'' bool_many_lattice [bool_world] bool_world None None None)
       stray_world =
     (Some (Exception ''The world's lattice must be a complete sublattice of the base lattice.''),
      Model_init ''M'' bool_many_lattice [bool_world] bool_world None None None)"
  by code_simp

lemma map_of_filter_key:
  "map_of (filter (\<lambda>(k, v). k \<noteq> w) xs) = (map_of xs)(w := None)"
  by (induction xs) (auto simp: fun_eq_iff)

lemma incoming_iff:
  assumes "distinct (map fst acc)"
  shows "list_ex (\<lambda>(other_world, targets). w \<in> set targets) acc =
         (\<exists>u ts. map_of acc u = Some ts \<and> w \<in> set ts)"
  using assms by (auto simp: list_ex_iff)

text \<open>
  Claim C8. For every model whose accessibility dictionary has distinct keys and every
  world \<open>w\<close> of it, \<^verbatim>\<open>delete_world\<close> raises exactly when \<open>w\<close> has an outgoing edge (a
  non-empty entry of its own) or an incoming edge (some entry contains \<open>w\<close>); when it
  raises, the model is unchanged; when it returns, \<open>w\<close> is gone from the worlds, its
  entry is gone from the dictionary, and nothing else has changed.
\<close>

theorem delete_world_spec:
  assumes mem: "w \<in> set (worlds m)"
    and dict: "distinct (map fst (accessibility_relation m))"
  shows "((fst (delete_world m w) \<noteq> None) =
            ((\<exists>ts. map_of (accessibility_relation m) w = Some ts \<and> ts \<noteq> []) \<or>
             (\<exists>u ts. map_of (accessibility_relation m) u = Some ts \<and> w \<in> set ts))) \<and>
         (fst (delete_world m w) \<noteq> None \<longrightarrow> snd (delete_world m w) = m) \<and>
         (fst (delete_world m w) = None \<longrightarrow>
            snd (delete_world m w) =
              m\<lparr> worlds := removeAll w (worlds m),
                 accessibility_relation :=
                   filter (\<lambda>(k, targets). k \<noteq> w) (accessibility_relation m) \<rparr> \<and>
            set (worlds (snd (delete_world m w))) = set (worlds m) - {w} \<and>
            map_of (accessibility_relation (snd (delete_world m w))) =
              (map_of (accessibility_relation m))(w := None))"
proof -
  let ?out = "case map_of (accessibility_relation m) w of None \<Rightarrow> False | Some ts \<Rightarrow> ts \<noteq> []"
  let ?inc = "list_ex (\<lambda>(other_world, targets). w \<in> set targets) (accessibility_relation m)"
  have out: "?out = (\<exists>ts. map_of (accessibility_relation m) w = Some ts \<and> ts \<noteq> [])"
    by (simp split: option.splits)
  note inc = incoming_iff [OF dict, of w]
  show ?thesis
  proof (cases "?out \<or> ?inc")
    case True
    then have "fst (delete_world m w) \<noteq> None" and "snd (delete_world m w) = m"
      by (auto simp: delete_world_def)
    with True out inc show ?thesis by auto
  next
    case False
    then have res: "delete_world m w =
        (None, m\<lparr> worlds := removeAll w (worlds m),
                 accessibility_relation :=
                   filter (\<lambda>(k, targets). k \<noteq> w) (accessibility_relation m) \<rparr>)"
      using mem by (simp add: delete_world_def Let_def)
    with False out inc show ?thesis
      by (auto simp: map_of_filter_key)
  qed
qed

text \<open>The theorem in \<open>edge_model\<close>: \<open>world_c\<close> has no edge and is deleted; \<open>world_b\<close> has
  the incoming edge from \<open>world_a\<close>, and the model is left unchanged.\<close>

theorem delete_world_spec_witness:
  "world_c \<in> set (worlds edge_model) \<and>
   world_b \<in> set (worlds edge_model) \<and>
   distinct (map fst (accessibility_relation edge_model)) \<and>
   accessibility_relation edge_model = [(world_a, [world_b]), (world_b, []), (world_c, [])] \<and>
   delete_world edge_model world_c =
     (None, edge_model\<lparr> worlds := [world_a, world_b],
                         accessibility_relation := [(world_a, [world_b]), (world_b, [])] \<rparr>) \<and>
   fst (delete_world edge_model world_b) \<noteq> None \<and>
   snd (delete_world edge_model world_b) = edge_model"
proof -
  have c: "world_c \<in> set (worlds edge_model)" and b: "world_b \<in> set (worlds edge_model)"
    by code_simp+
  have dict: "distinct (map fst (accessibility_relation edge_model))"
    by code_simp
  have acc: "accessibility_relation edge_model =
      [(world_a, [world_b]), (world_b, []), (world_c, [])]"
    by code_simp
  have del_c: "delete_world edge_model world_c =
     (None, edge_model\<lparr> worlds := [world_a, world_b],
                         accessibility_relation := [(world_a, [world_b]), (world_b, [])] \<rparr>)"
    by code_simp
  have "map_of (accessibility_relation edge_model) world_a = Some [world_b]"
    by code_simp
  then have "\<exists>u ts. map_of (accessibility_relation edge_model) u = Some ts \<and> world_b \<in> set ts"
    by (intro exI [of _ world_a] exI [of _ "[world_b]"]) simp
  with delete_world_spec [OF b dict]
  have "fst (delete_world edge_model world_b) \<noteq> None"
    and "snd (delete_world edge_model world_b) = edge_model"
    by blast+
  with c b dict acc del_c show ?thesis by (simp only: simp_thms)
qed

subsection \<open>The parser\<close>

text \<open>Eating a token other than the end of the input leaves less to read.\<close>

lemma get_next_token_shorter:
  "get_next_token s = Inr (tok, rest) \<Longrightarrow>
   tok = EOF \<and> rest = [] \<or> tok \<noteq> EOF \<and> length rest < length s"
proof (induction s rule: get_next_token.induct)
  case 1
  then show ?case by simp
next
  case (2 c cs)
  show ?case
  proof (cases "isspace c")
    case True
    with 2 have "tok = EOF \<and> rest = [] \<or>
        tok \<noteq> EOF \<and> length rest < length (skip_whitespace (c # cs))"
      by simp
    moreover have "length (skip_whitespace (c # cs)) \<le> length (c # cs)"
      unfolding skip_whitespace_def by (rule length_dropWhile_le)
    ultimately show ?thesis by auto
  next
    case False
    have "length (dropWhile isalnum cs) \<le> length cs" by (rule length_dropWhile_le)
    with False 2(2) show ?thesis
      by (auto simp: get_atom_def split: if_splits list.splits)
  qed
qed

lemma eat_remaining:
  assumes "eat p expected = Inr p'" and "expected \<noteq> ''EOF''"
  shows "remaining p' < remaining p"
proof -
  from assms have cur: "current_token p \<noteq> EOF"
    by (auto simp: eat_def split: if_splits)
  from assms obtain tok rest where
    tok: "get_next_token (lexer p) = Inr (tok, rest)" and
    p': "p' = \<lparr> lexer = rest, current_token = tok \<rparr>"
    by (auto simp: eat_def split: if_splits sum.splits)
  from get_next_token_shorter [OF tok] cur p' show ?thesis
    by (auto simp: remaining_def)
qed

lemma expr_step:
  assumes sub: "progress cs n sub"
    and loop: "\<And>node. no_regress cl n (loop node)"
    and eq: "\<And>p. e p = (case sub p of None \<Rightarrow> None | Some (Inl er) \<Rightarrow> Some (Inl er)
                          | Some (Inr (node, p1)) \<Rightarrow> loop node p1)"
    and c: "cs + 1 \<le> ce" "cl \<le> ce + 4"
  shows "progress ce (Suc n) e"
  unfolding progress_def
proof (intro allI impI)
  fix p assume b: "5 * remaining p + ce \<le> Suc n"
  with c have "5 * remaining p + cs \<le> n" by simp
  with sub have s1: "sub p \<noteq> None"
    and s2: "\<And>node p1. sub p = Some (Inr (node, p1)) \<Longrightarrow> remaining p1 < remaining p"
    unfolding progress_def by blast+
  show "e p \<noteq> None \<and> (\<forall>node p'. e p = Some (Inr (node, p')) \<longrightarrow> remaining p' < remaining p)"
  proof (cases "sub p")
    case None
    with s1 show ?thesis by simp
  next
    case (Some r)
    show ?thesis
    proof (cases r)
      case (Inl er)
      with Some show ?thesis by (simp add: eq)
    next
      case (Inr np)
      obtain node p1 where np: "np = (node, p1)" by (cases np)
      with Some Inr have r: "sub p = Some (Inr (node, p1))" by simp
      from s2 [OF r] have lt: "remaining p1 < remaining p" .
      with b c have "5 * remaining p1 + cl \<le> n" by simp
      with loop [of node] have "loop node p1 \<noteq> None"
        and "\<And>nd p'. loop node p1 = Some (Inr (nd, p')) \<Longrightarrow> remaining p' \<le> remaining p1"
        unfolding no_regress_def by blast+
      with lt r show ?thesis by (force simp: eq)
    qed
  qed
qed

lemma loop_step:
  assumes sub: "progress cs n sub"
    and loop: "\<And>node. no_regress cl n (loop node)"
    and eq: "\<And>node p. l node p =
        (if token_type (current_token p) = tt
         then (case eat p tt of
                 Inl er \<Rightarrow> Some (Inl er)
               | Inr p1 \<Rightarrow>
                   (case sub p1 of
                      None \<Rightarrow> None
                    | Some (Inl er) \<Rightarrow> Some (Inl er)
                    | Some (Inr (rhs, p2)) \<Rightarrow> loop (C node rhs) p2))
         else Some (Inr (node, p)))"
    and tt: "tt \<noteq> ''EOF''"
    and c: "cs \<le> cl' + 4" "cl \<le> cl' + 9"
  shows "no_regress cl' (Suc n) (l node)"
  unfolding no_regress_def
proof (intro allI impI)
  fix p assume b: "5 * remaining p + cl' \<le> Suc n"
  show "l node p \<noteq> None \<and>
        (\<forall>nd p'. l node p = Some (Inr (nd, p')) \<longrightarrow> remaining p' \<le> remaining p)"
  proof (cases "token_type (current_token p) = tt")
    case False
    then show ?thesis by (simp add: eq)
  next
    case True
    show ?thesis
    proof (cases "eat p tt")
      case (Inl er)
      with True show ?thesis by (simp add: eq)
    next
      case (Inr p1)
      from eat_remaining [OF Inr tt] have lt1: "remaining p1 < remaining p" .
      with b c have "5 * remaining p1 + cs \<le> n" by simp
      with sub have s1: "sub p1 \<noteq> None"
        and s2: "\<And>rhs p2. sub p1 = Some (Inr (rhs, p2)) \<Longrightarrow> remaining p2 < remaining p1"
        unfolding progress_def by blast+
      show ?thesis
      proof (cases "sub p1")
        case None
        with s1 show ?thesis by simp
      next
        case (Some r)
        show ?thesis
        proof (cases r)
          case (Inl er)
          with Some True \<open>eat p tt = Inr p1\<close> show ?thesis by (simp add: eq)
        next
          case r: (Inr np)
          obtain rhs p2 where np: "np = (rhs, p2)" by (cases np)
          with Some r have sr: "sub p1 = Some (Inr (rhs, p2))" by simp
          from s2 [OF sr] have lt2: "remaining p2 < remaining p1" .
          with lt1 b c have "5 * remaining p2 + cl \<le> n" by simp
          with loop [of "C node rhs"] have "loop (C node rhs) p2 \<noteq> None"
            and "\<And>nd p'. loop (C node rhs) p2 = Some (Inr (nd, p')) \<Longrightarrow>
                   remaining p' \<le> remaining p2"
            unfolding no_regress_def by blast+
          with lt1 lt2 sr True \<open>eat p tt = Inr p1\<close> show ?thesis by (force simp: eq)
        qed
      qed
    qed
  qed
qed

text \<open>One more unit of fuel serves one more level of calls.\<close>

lemma prefix_step:
  assumes U: "progress 1 n (unary n)"
    and b: "5 * remaining p + 1 \<le> Suc n"
    and tt: "tt \<noteq> ''EOF''"
    and r: "r = (case eat p tt of
                  Inl er \<Rightarrow> Some (Inl er)
                | Inr p1 \<Rightarrow>
                    (case unary n p1 of
                       None \<Rightarrow> None
                     | Some (Inl er) \<Rightarrow> Some (Inl er)
                     | Some (Inr (child, p2)) \<Rightarrow> Some (Inr (C child, p2))))"
  shows "r \<noteq> None \<and> (\<forall>node p'. r = Some (Inr (node, p')) \<longrightarrow> remaining p' < remaining p)"
proof (cases "eat p tt")
  case (Inl er)
  with r show ?thesis by simp
next
  case (Inr p1)
  from eat_remaining [OF Inr tt] have lt1: "remaining p1 < remaining p" .
  with b have "5 * remaining p1 + 1 \<le> n" by simp
  with U have s1: "unary n p1 \<noteq> None"
    and s2: "\<And>child p2. unary n p1 = Some (Inr (child, p2)) \<Longrightarrow> remaining p2 < remaining p1"
    unfolding progress_def by blast+
  show ?thesis
  proof (cases "unary n p1")
    case None
    with s1 show ?thesis by simp
  next
    case (Some res)
    show ?thesis
    proof (cases res)
      case (Inl er)
      with Some Inr r show ?thesis by simp
    next
      case res: (Inr np)
      obtain child p2 where "np = (child, p2)" by (cases np)
      with Some res have sr: "unary n p1 = Some (Inr (child, p2))" by simp
      from s2 [OF sr] lt1 have "remaining p2 < remaining p" by simp
      with sr Inr r show ?thesis by simp
    qed
  qed
qed

lemma paren_step:
  assumes F: "progress 5 n (iff_expr n)"
    and b: "5 * remaining p + 1 \<le> Suc n"
    and r: "r = (case eat p ''LPAREN'' of
                  Inl er \<Rightarrow> Some (Inl er)
                | Inr p1 \<Rightarrow>
                    (case iff_expr n p1 of
                       None \<Rightarrow> None
                     | Some (Inl er) \<Rightarrow> Some (Inl er)
                     | Some (Inr (node, p2)) \<Rightarrow>
                         (case eat p2 ''RPAREN'' of
                            Inl er \<Rightarrow> Some (Inl er)
                          | Inr p3 \<Rightarrow> Some (Inr (node, p3)))))"
  shows "r \<noteq> None \<and> (\<forall>node p'. r = Some (Inr (node, p')) \<longrightarrow> remaining p' < remaining p)"
proof (cases "eat p ''LPAREN''")
  case (Inl er)
  with r show ?thesis by simp
next
  case (Inr p1)
  have "''LPAREN'' \<noteq> ''EOF''" by simp
  from eat_remaining [OF Inr this] have lt1: "remaining p1 < remaining p" .
  with b have "5 * remaining p1 + 5 \<le> n" by simp
  with F have s1: "iff_expr n p1 \<noteq> None"
    and s2: "\<And>node p2. iff_expr n p1 = Some (Inr (node, p2)) \<Longrightarrow> remaining p2 < remaining p1"
    unfolding progress_def by blast+
  show ?thesis
  proof (cases "iff_expr n p1")
    case None
    with s1 show ?thesis by simp
  next
    case (Some res)
    show ?thesis
    proof (cases res)
      case (Inl er)
      with Some Inr r show ?thesis by simp
    next
      case res: (Inr np)
      obtain node p2 where "np = (node, p2)" by (cases np)
      with Some res have sr: "iff_expr n p1 = Some (Inr (node, p2))" by simp
      from s2 [OF sr] lt1 have lt2: "remaining p2 < remaining p" by simp
      show ?thesis
      proof (cases "eat p2 ''RPAREN''")
        case (Inl er)
        with sr Inr r show ?thesis by simp
      next
        case p3: (Inr p3)
        have "''RPAREN'' \<noteq> ''EOF''" by simp
        from eat_remaining [OF p3 this] lt2 have "remaining p3 < remaining p" by simp
        with sr Inr p3 r show ?thesis by simp
      qed
    qed
  qed
qed

lemma unary_step:
  assumes U: "progress 1 n (unary n)" and F: "progress 5 n (iff_expr n)"
  shows "progress 1 (Suc n) (unary (Suc n))"
  unfolding progress_def
proof (intro allI impI)
  fix p assume b: "5 * remaining p + 1 \<le> Suc n"
  show "unary (Suc n) p \<noteq> None \<and>
        (\<forall>node p'. unary (Suc n) p = Some (Inr (node, p')) \<longrightarrow> remaining p' < remaining p)"
  proof (cases "current_token p")
    case (ATOM nm)
    have "''ATOM'' \<noteq> ''EOF''" by simp
    then have "\<And>p1. eat p ''ATOM'' = Inr p1 \<Longrightarrow> remaining p1 < remaining p"
      by (rule eat_remaining [rotated])
    with ATOM show ?thesis by (auto split: sum.splits)
  next
    case NOT
    show ?thesis
      by (rule prefix_step [OF U b, where tt = "''NOT''" and C = Not_node]) (simp_all add: NOT)
  next
    case BOX
    show ?thesis
      by (rule prefix_step [OF U b, where tt = "''BOX''" and C = Box]) (simp_all add: BOX)
  next
    case DIAMOND
    show ?thesis
      by (rule prefix_step [OF U b, where tt = "''DIAMOND''" and C = Diamond])
        (simp_all add: DIAMOND)
  next
    case LPAREN
    show ?thesis
      by (rule paren_step [OF F b]) (simp add: LPAREN)
  qed simp_all
qed

lemma fuel_suffices:
  "progress 1 n (unary n) \<and> (\<forall>node. no_regress 1 n (and_loop n node)) \<and>
   progress 2 n (and_expr n) \<and> (\<forall>node. no_regress 2 n (or_loop n node)) \<and>
   progress 3 n (or_expr n) \<and> (\<forall>node. no_regress 3 n (implies_loop n node)) \<and>
   progress 4 n (implies_expr n) \<and> (\<forall>node. no_regress 4 n (iff_loop n node)) \<and>
   progress 5 n (iff_expr n)"
proof (induction n)
  case 0
  show ?case by (simp add: progress_def no_regress_def)
next
  case (Suc n)
  then have U: "progress 1 n (unary n)" and AL: "\<And>node. no_regress 1 n (and_loop n node)"
    and A: "progress 2 n (and_expr n)" and OL: "\<And>node. no_regress 2 n (or_loop n node)"
    and O: "progress 3 n (or_expr n)" and IL: "\<And>node. no_regress 3 n (implies_loop n node)"
    and I: "progress 4 n (implies_expr n)" and FL: "\<And>node. no_regress 4 n (iff_loop n node)"
    and F: "progress 5 n (iff_expr n)"
    by simp_all
  have "progress 1 (Suc n) (unary (Suc n))" by (rule unary_step [OF U F])
  moreover have "no_regress 1 (Suc n) (and_loop (Suc n) node)" for node
    by (rule loop_step [OF U AL, where tt = "''AND''" and C = And]) simp_all
  moreover have "progress 2 (Suc n) (and_expr (Suc n))"
    by (rule expr_step [OF U AL]) simp_all
  moreover have "no_regress 2 (Suc n) (or_loop (Suc n) node)" for node
    by (rule loop_step [OF A OL, where tt = "''OR''" and C = Or]) simp_all
  moreover have "progress 3 (Suc n) (or_expr (Suc n))"
    by (rule expr_step [OF A OL]) simp_all
  moreover have "no_regress 3 (Suc n) (implies_loop (Suc n) node)" for node
    by (rule loop_step [OF O IL, where tt = "''IMPLIES''" and C = Implies]) simp_all
  moreover have "progress 4 (Suc n) (implies_expr (Suc n))"
    by (rule expr_step [OF O IL]) simp_all
  moreover have "no_regress 4 (Suc n) (iff_loop (Suc n) node)" for node
    by (rule loop_step [OF I FL, where tt = "''IFF''" and C = Iff]) simp_all
  moreover have "progress 5 (Suc n) (iff_expr (Suc n))"
    by (rule expr_step [OF I FL]) simp_all
  ultimately show ?case by blast
qed

lemma FormulaParser_init_remaining:
  "FormulaParser_init text = Inr p \<Longrightarrow> remaining p \<le> length text + 1"
proof -
  assume "FormulaParser_init text = Inr p"
  then obtain tok rest where "get_next_token text = Inr (tok, rest)"
    and "p = \<lparr> lexer = rest, current_token = tok \<rparr>"
    by (auto simp: FormulaParser_init_def split: sum.splits)
  with get_next_token_shorter [of "text" tok rest] show ?thesis
    by (auto simp: remaining_def)
qed

text \<open>
  The parser returns on every text: the fuel that \<open>parse\<close> passes is never used up.
\<close>

theorem parse_returns: "parse text \<noteq> None"
proof (cases "FormulaParser_init text")
  case (Inl er)
  then show ?thesis by (simp add: parse_def)
next
  case (Inr p)
  from FormulaParser_init_remaining [OF Inr]
  have "5 * remaining p + 5 \<le> 10 * (length text + 2)" by simp
  with fuel_suffices [of "10 * (length text + 2)"]
  have "iff_expr (10 * (length text + 2)) p \<noteq> None"
    unfolding progress_def by blast
  with Inr show ?thesis
    by (auto simp: parse_def split: option.splits sum.splits)
qed

text \<open>
  Claim C9. Parsing \<^verbatim>\<open>(p & q)\<close> returns \<^verbatim>\<open>And(Atom(p), Atom(q))\<close>, parsing \<^verbatim>\<open>[]p\<close> returns
  \<^verbatim>\<open>Box(Atom(p))\<close>, and parsing \<^verbatim>\<open>p &\<close> raises and returns no tree. The specification's
  syntax error is the \<^verbatim>\<open>ValueError\<close> that \<^verbatim>\<open>unary\<close> raises at the end of the input.
\<close>

theorem parse_examples:
  "parse ''(p & q)'' = Some (Inr (And (Atom ''p'') (Atom ''q''))) \<and>
   parse ''[]p'' = Some (Inr (Box (Atom ''p''))) \<and>
   parse ''p &'' = Some (Inl (ValueError ''Unexpected syntax in formula''))"
  by code_simp

subsection \<open>Further properties of the constructors and mutators\<close>

text \<open>Both interpretations are the identity on the elements of a registered
  sublattice.\<close>

theorem interpretation_identity_on_members:
  assumes "l \<in> set (comp_sub_lat self)" and "a \<in> set (elements l)"
  shows "down_interpretation self l a = Inr a \<and> up_interpretation self l a = Inr a"
  using assms by (simp add: down_interpretation_def up_interpretation_def)

theorem interpretation_identity_on_members_witness:
  "bool_lattice \<in> set (comp_sub_lat chain_many_lattice) \<and>
   ''0'' \<in> set (elements bool_lattice) \<and>
   down_interpretation chain_many_lattice bool_lattice ''0'' = Inr ''0'' \<and>
   up_interpretation chain_many_lattice bool_lattice ''0'' = Inr ''0''"
proof -
  have reg: "bool_lattice \<in> set (comp_sub_lat chain_many_lattice)"
    by (simp add: chain_many_lattice_def)
  have mem: "''0'' \<in> set (elements bool_lattice)"
    by (simp add: bool_lattice_def)
  from interpretation_identity_on_members [OF reg mem] reg mem show ?thesis by simp
qed

text \<open>\<^verbatim>\<open>FilteredLattice.__init__\<close> accepts a filter only when it is a subset of the
  elements, and stores it as given.\<close>

theorem filtered_lattice_filter_subset:
  assumes "FilteredLattice_init nm_filtered nm_lattice els rels neg imp flt = Inr fl"
  shows "set (filter_set fl) \<subseteq> set (elements fl) \<and>
         filter_set fl = (case flt of None \<Rightarrow> [] | Some f \<Rightarrow> f)"
  using assms
  by (auto simp: FilteredLattice_init_def check_filter_def Let_def list_all_iff
      split: sum.splits if_splits)

theorem filtered_lattice_filter_subset_witness:
  "FilteredLattice_init ''FB'' ''B'' [''0'', ''1''] {(''0'', ''0''), (''0'', ''1''), (''1'', ''1'')}
     None None (Some [''1''])
     = Inr \<lparr> name = ''B'', elements = [''0'', ''1''],
             relations = {(''0'', ''0''), (''0'', ''1''), (''1'', ''1'')},
             negation_map = [], implication_map = [],
             bottom_attr = Some ''0'', top_attr = Some ''1'',
             name_filtered_lattice = ''FB'', filter_set = [''1''] \<rparr> \<and>
   FilteredLattice_init ''FB'' ''B'' [''0'', ''1''] {(''0'', ''0''), (''0'', ''1''), (''1'', ''1'')}
     None None (Some [''2''])
     = Inl (ValueError ''The Filter must be a subset of the Lattice elements.'')"
proof -
  have ok: "FilteredLattice_init ''FB'' ''B'' [''0'', ''1'']
     {(''0'', ''0''), (''0'', ''1''), (''1'', ''1'')} None None (Some [''1''])
     = Inr \<lparr> name = ''B'', elements = [''0'', ''1''],
             relations = {(''0'', ''0''), (''0'', ''1''), (''1'', ''1'')},
             negation_map = [], implication_map = [],
             bottom_attr = Some ''0'', top_attr = Some ''1'',
             name_filtered_lattice = ''FB'', filter_set = [''1''] \<rparr>"
    by code_simp
  have bad: "FilteredLattice_init ''FB'' ''B'' [''0'', ''1'']
     {(''0'', ''0''), (''0'', ''1''), (''1'', ''1'')} None None (Some [''2''])
     = Inl (ValueError ''The Filter must be a subset of the Lattice elements.'')"
    by code_simp
  from filtered_lattice_filter_subset [OF ok] ok bad show ?thesis by simp
qed

text \<open>The loop at the end of \<^verbatim>\<open>Model.__init__\<close>: entries of the dictionary passed in are
  kept, and every world of the model has an entry afterwards.\<close>

lemma fold_entries_keeps:
  "map_of rel w = Some ts \<Longrightarrow>
   map_of (fold (\<lambda>w rel. if map_of rel w = None then rel @ [(w, [])] else rel) ws rel) w = Some ts"
proof (induction ws arbitrary: rel)
  case Nil
  then show ?case by simp
next
  case (Cons u ws)
  then have "map_of (if map_of rel u = None then rel @ [(u, [])] else rel) w = Some ts"
    by (simp add: map_add_Some_iff)
  then show ?case using Cons.IH by simp
qed

lemma fold_entries_total:
  "w \<in> set ws \<Longrightarrow>
   map_of (fold (\<lambda>w rel. if map_of rel w = None then rel @ [(w, [])] else rel) ws rel) w \<noteq> None"
proof (induction ws arbitrary: rel)
  case Nil
  then show ?case by simp
next
  case (Cons u ws)
  let ?rel = "if map_of rel u = None then rel @ [(u, [])] else rel"
  show ?case
  proof (cases "w = u")
    case True
    have "\<exists>ts. map_of ?rel u = Some ts"
      by (cases "map_of rel u") (simp_all add: map_add_Some_iff)
    then obtain ts where "map_of ?rel u = Some ts" ..
    from fold_entries_keeps [OF this, of ws] True show ?thesis by simp
  next
    case False
    with Cons.prems have "w \<in> set ws" by simp
    from Cons.IH [OF this, of ?rel] show ?thesis by simp
  qed
qed

theorem model_init_accessibility_total:
  "(w \<in> set ws \<longrightarrow>
      map_of (accessibility_relation (Model_init nm many ws init acc prs acts)) w \<noteq> None) \<and>
   (acc = Some rel \<and> map_of rel w = Some ts \<longrightarrow>
      map_of (accessibility_relation (Model_init nm many ws init acc prs acts)) w = Some ts) \<and>
   worlds (Model_init nm many ws init acc prs acts) = ws"
  by (auto simp: Model_init_def fold_entries_total fold_entries_keeps)

theorem model_init_accessibility_total_witness:
  "world_a \<in> set [world_a, world_b, world_c] \<and>
   map_of [(world_a, [world_b])] world_a = Some [world_b] \<and>
   map_of (accessibility_relation edge_model) world_a = Some [world_b] \<and>
   map_of (accessibility_relation edge_model) world_c \<noteq> None"
proof -
  have a: "world_a \<in> set [world_a, world_b, world_c]" and c: "world_c \<in> set [world_a, world_b, world_c]"
    by simp_all
  have rel: "map_of [(world_a, [world_b])] world_a = Some [world_b]" by simp
  note inst = model_init_accessibility_total [where nm = "''E''" and many = bool_many_lattice
      and ws = "[world_a, world_b, world_c]" and init = world_a
      and acc = "Some [(world_a, [world_b])]" and rel = "[(world_a, [world_b])]"
      and prs = None and acts = None]
  from inst [of world_a "[world_b]"] rel
  have "map_of (accessibility_relation edge_model) world_a = Some [world_b]"
    unfolding edge_model_def by blast
  moreover from inst [of world_c] c
  have "map_of (accessibility_relation edge_model) world_c \<noteq> None"
    unfolding edge_model_def by blast
  ultimately show ?thesis using a rel by simp
qed

text \<open>\<^verbatim>\<open>Model.add_world\<close> returns exactly when no world of the model has the new world's
  short name and the new world's lattice is registered by name; otherwise it raises
  and leaves the model as it was. When every world of the model lives in a registered
  lattice, that is still so afterwards.\<close>

theorem add_world_registered_lattice:
  "((fst (add_world m w) = None) =
      (get_world m (name_short w) = None \<and>
       name (lattice w) \<in> set (map name (comp_sub_lat (many_lattice m))))) \<and>
   (fst (add_world m w) \<noteq> None \<longrightarrow> snd (add_world m w) = m) \<and>
   (fst (add_world m w) = None \<longrightarrow>
      set (worlds (snd (add_world m w))) = insert w (set (worlds m)) \<and>
      many_lattice (snd (add_world m w)) = many_lattice m \<and>
      map_of (accessibility_relation (snd (add_world m w))) w \<noteq> None) \<and>
   (list_all (\<lambda>u. name (lattice u) \<in> set (map name (comp_sub_lat (many_lattice m)))) (worlds m) \<longrightarrow>
      list_all (\<lambda>u. name (lattice u) \<in> set (map name (comp_sub_lat (many_lattice m))))
        (worlds (snd (add_world m w))))"
  by (auto simp: add_world_def list_all_iff map_add_Some_iff split: if_splits)

theorem add_world_registered_lattice_witness:
  "fst (add_world bool_model blank_world) = None \<and>
   get_world bool_model (name_short blank_world) = None \<and>
   worlds (snd (add_world bool_model blank_world)) = [bool_world, blank_world] \<and>
   fst (add_world bool_model stray_world) \<noteq> None \<and>
   snd (add_world bool_model stray_world) = bool_model"
proof -
  have ok: "get_world bool_model (name_short blank_world) = None"
    "name (lattice blank_world) \<in> set (map name (comp_sub_lat (many_lattice bool_model)))"
    by code_simp+
  have stray:
    "name (lattice stray_world) \<notin> set (map name (comp_sub_lat (many_lattice bool_model)))"
    by code_simp
  have ws: "worlds (snd (add_world bool_model blank_world)) = [bool_world, blank_world]"
    by code_simp
  from add_world_registered_lattice [of bool_model blank_world] ok
  have "fst (add_world bool_model blank_world) = None" by blast
  moreover from add_world_registered_lattice [of bool_model stray_world] stray
  have "fst (add_world bool_model stray_world) \<noteq> None"
    and "snd (add_world bool_model stray_world) = bool_model" by blast+
  ultimately show ?thesis using ok ws by simp
qed

end
